theory Spec2Isabelle
  imports Main
begin

section \<open>Habit history calendar: paging and weekday labels\<close>

text \<open>
  Layout constants of \<^verbatim>\<open>HabitHistoryCalendar\<close>.
\<close>

definition RECT_SIZE :: int where
  "RECT_SIZE = 11"

definition CELL_SPACING :: int where
  "CELL_SPACING = 1"

definition HEADER_SIZE :: int where
  "HEADER_SIZE = 8"

definition CELL_SIZE :: int where
  "CELL_SIZE = RECT_SIZE + CELL_SPACING"

subsection \<open>Paging\<close>

text \<open>
  \<^verbatim>\<open>const [offset, setOffset] = useState(0);
  const shiftLeft = () => setOffset(offset + 1);
  const shiftRight = () => setOffset(Math.max(0, offset - 1));\<close>
  The offset is a JavaScript number that only ever holds integers; it is an \<open>int\<close>
  here. The right button carries \<^verbatim>\<open>disabled={offset === 0}\<close>.
\<close>

definition initialOffset :: int where
  "initialOffset = 0"

definition shiftLeft :: "int \<Rightarrow> int" where
  "shiftLeft offset = offset + 1"

definition shiftRight :: "int \<Rightarrow> int" where
  "shiftRight offset = max 0 (offset - 1)"

definition shiftRightDisabled :: "int \<Rightarrow> bool" where
  "shiftRightDisabled offset = (offset = 0)"

datatype PageAction = ShiftLeft | ShiftRight

fun pageStep :: "int \<Rightarrow> PageAction \<Rightarrow> int" where
  "pageStep offset ShiftLeft = shiftLeft offset"
| "pageStep offset ShiftRight = shiftRight offset"

definition pageRun :: "PageAction list \<Rightarrow> int" where
  "pageRun acts = foldl pageStep initialOffset acts"

subsection \<open>Array slices\<close>

text \<open>
  \<^verbatim>\<open>Array.prototype.slice(start, end)\<close> on integer arguments: a negative index counts
  from the end of the array, and both indices are clamped to \<open>[0, length]\<close>. With one
  argument the end is the length of the array.
\<close>

definition sliceIndex :: "int \<Rightarrow> int \<Rightarrow> int" where
  "sliceIndex len i = (if i < 0 then max (len + i) 0 else min i len)"

definition slice :: "'a list \<Rightarrow> int \<Rightarrow> int \<Rightarrow> 'a list" where
  "slice xs start fin =
     (let len = int (length xs);
          k = sliceIndex len start;
          final = sliceIndex len fin
      in take (nat (final - k)) (drop (nat k) xs))"

definition sliceFrom :: "'a list \<Rightarrow> int \<Rightarrow> 'a list" where
  "sliceFrom xs start = slice xs start (int (length xs))"

subsection \<open>Weekday labels\<close>

text \<open>
  \<^verbatim>\<open>let weekDays = ["Sun", "Mon", "Tue", "Wed", "Thu", "Fri", "Sat"];
  const startIndex = settingsStore.startOfWeek;
  weekDays = [...weekDays.slice(startIndex), ...weekDays.slice(0, startIndex)];\<close>
  Each name then becomes a \<^verbatim>\<open><text>\<close> element with \<^verbatim>\<open>y = 7 + CELL_SIZE * index\<close>,
  inside a group translated to \<^verbatim>\<open>(CELL_SIZE * totalWeeks + 1, HEADER_SIZE)\<close>.
\<close>

definition weekDays :: "string list" where
  "weekDays = [''Sun'', ''Mon'', ''Tue'', ''Wed'', ''Thu'', ''Fri'', ''Sat'']"

definition rotatedWeekDays :: "int \<Rightarrow> string list" where
  "rotatedWeekDays startIndex = sliceFrom weekDays startIndex @ slice weekDays 0 startIndex"

record WeekDayLabel =
  wl_y :: int
  wl_key :: string
  wl_text :: string

record WeekDayLabelGroup =
  wg_translate :: "int \<times> int"
  wg_labels :: "WeekDayLabel list"

definition WeekDayLabels :: "int \<Rightarrow> int \<Rightarrow> WeekDayLabelGroup" where
  "WeekDayLabels startIndex totalWeeks =
     \<lparr> wg_translate = (CELL_SIZE * totalWeeks + 1, HEADER_SIZE),
       wg_labels = map (\<lambda>(index, name). \<lparr> wl_y = 7 + CELL_SIZE * int index, wl_key = name, wl_text = name \<rparr>)
                     (enumerate 0 (rotatedWeekDays startIndex)) \<rparr>"

definition renderedWeekDays :: "int \<Rightarrow> int \<Rightarrow> string list" where
  "renderedWeekDays startIndex totalWeeks = map wl_text (wg_labels (WeekDayLabels startIndex totalWeeks))"

section \<open>Dates\<close>

text \<open>
  The program reads the clock through \<^verbatim>\<open>dayjs()\<close> and \<^verbatim>\<open>new Date()\<close> and computes with
  the fields of local time. A \<^verbatim>\<open>Date\<close> or \<^verbatim>\<open>Dayjs\<close> value is identified with the
  reading of the local wall clock at it: the number of milliseconds since the reading
  1970-01-01 00:00 of that clock.

  The operations used by the calendar (\<^verbatim>\<open>add\<close> and \<^verbatim>\<open>subtract\<close> of days and weeks,
  \<^verbatim>\<open>startOf\<close>, \<^verbatim>\<open>setDate\<close>, \<^verbatim>\<open>new Date(y, m, d)\<close>) ask for a wall-clock reading:
  the fields of the date they start from, with the day or the time of day replaced. Where a
  clock change skips the reading that is asked for, the platform interprets it with the UTC
  offset before the change, so the Date that results shows a later reading: midnight of a day
  whose clocks go from 24:00 to 01:00 becomes 01:00. A time zone is described by this
  resolution: \<open>zone t\<close> is the reading of the Date that results when the reading \<open>t\<close>
  is asked for, \<open>t\<close> itself wherever the wall clock shows \<open>t\<close> at some moment.

  \<^verbatim>\<open>diff\<close> subtracts the two moments and corrects by the difference of their UTC offsets,
  which gives the difference of the two readings (for UTC offsets that are multiples of a
  quarter of an hour, as dayjs rounds them).
\<close>

type_synonym instant = int

type_synonym zone = "instant \<Rightarrow> instant"

definition MILLISECONDS_A_DAY :: int where
  "MILLISECONDS_A_DAY = 86400000"

definition MILLISECONDS_A_WEEK :: int where
  "MILLISECONDS_A_WEEK = 7 * MILLISECONDS_A_DAY"

definition dayOf :: "instant \<Rightarrow> int" where
  "dayOf t = t div MILLISECONDS_A_DAY"

definition midnight :: "int \<Rightarrow> instant" where
  "midnight d = d * MILLISECONDS_A_DAY"

text \<open>Day of the week, 0 for Sunday; 1970-01-01 was a Thursday.\<close>

definition weekdayOf :: "int \<Rightarrow> int" where
  "weekdayOf d = (d + 4) mod 7"

text \<open>
  \<^verbatim>\<open>add(n, "day")\<close> and \<^verbatim>\<open>add(n, "weeks")\<close> of dayjs, and
  \<^verbatim>\<open>date.setDate(date.getDate() + n)\<close>, which dayjs uses for both: the same time of day,
  \<open>n\<close> days (or \<open>7 * n\<close> days) later. \<^verbatim>\<open>subtract(n, unit)\<close> is
  \<^verbatim>\<open>add(-n, unit)\<close>.
\<close>

definition addDays :: "zone \<Rightarrow> int \<Rightarrow> instant \<Rightarrow> instant" where
  "addDays zone n t = zone (t + n * MILLISECONDS_A_DAY)"

definition addWeeks :: "zone \<Rightarrow> int \<Rightarrow> instant \<Rightarrow> instant" where
  "addWeeks zone n t = zone (t + n * MILLISECONDS_A_WEEK)"

definition subtractWeeks :: "zone \<Rightarrow> int \<Rightarrow> instant \<Rightarrow> instant" where
  "subtractWeeks zone n t = addWeeks zone (- n) t"

text \<open>
  \<^verbatim>\<open>startOf("week")\<close> in the default locale of dayjs, whose weeks begin on Sunday:
  \<^verbatim>\<open>new Date(y, m, d - weekday)\<close>, which asks for the midnight that begins the last
  Sunday at or before the instant.
\<close>

definition startOf_week :: "zone \<Rightarrow> instant \<Rightarrow> instant" where
  "startOf_week zone t = zone (midnight (dayOf t - weekdayOf (dayOf t)))"

text \<open>
  \<^verbatim>\<open>a.diff(b, "weeks")\<close>: the difference in milliseconds divided by the length of a
  week and truncated towards zero (\<^verbatim>\<open>absFloor\<close> in dayjs).
\<close>

definition diffWeeks :: "instant \<Rightarrow> instant \<Rightarrow> int" where
  "diffWeeks a b =
     (let d = a - b
      in if d < 0 then - ((- d) div MILLISECONDS_A_WEEK) else d div MILLISECONDS_A_WEEK)"

subsection \<open>The civil calendar\<close>

text \<open>
  Year, month and day of the month of a day number in the proleptic Gregorian calendar,
  which is the calendar of \<^verbatim>\<open>Date\<close>. Years begin in March inside the computation, so
  that the leap day is the last day of a year; \<open>monthOf\<close> is 0 for January, as
  \<^verbatim>\<open>month()\<close> of dayjs is.
\<close>

definition dayOfEra :: "int \<Rightarrow> int" where
  "dayOfEra d = (d + 719468) mod 146097"

definition yearOfEra :: "int \<Rightarrow> int" where
  "yearOfEra d =
     (let doe = dayOfEra d
      in (doe - doe div 1460 + doe div 36524 - doe div 146096) div 365)"

definition dayOfMarchYear :: "int \<Rightarrow> int" where
  "dayOfMarchYear d =
     (let yoe = yearOfEra d
      in dayOfEra d - (365 * yoe + yoe div 4 - yoe div 100))"

definition marchMonth :: "int \<Rightarrow> int" where
  "marchMonth d = (5 * dayOfMarchYear d + 2) div 153"

definition monthOf :: "int \<Rightarrow> int" where
  "monthOf d = (let mp = marchMonth d in if mp < 10 then mp + 2 else mp - 10)"

definition dateOf :: "int \<Rightarrow> int" where
  "dateOf d = dayOfMarchYear d - (153 * marchMonth d + 2) div 5 + 1"

definition yearOf :: "int \<Rightarrow> int" where
  "yearOf d =
     yearOfEra d + 400 * ((d + 719468) div 146097) + (if monthOf d \<le> 1 then 1 else 0)"

text \<open>
  \<^verbatim>\<open>a.isSame(b, "month")\<close>: \<open>b\<close> lies between the start and the end of the month of
  \<open>a\<close>, that is, both readings fall in the same month of the same year.
\<close>

definition isSameMonth :: "instant \<Rightarrow> instant \<Rightarrow> bool" where
  "isSameMonth a b =
     (yearOf (dayOf a) = yearOf (dayOf b) \<and> monthOf (dayOf a) = monthOf (dayOf b))"

subsection \<open>Formatting\<close>

definition digitChar :: "nat \<Rightarrow> char" where
  "digitChar n = ''0123456789'' ! n"

fun showNat :: "nat \<Rightarrow> string" where
  "showNat n = (if n < 10 then [digitChar n] else showNat (n div 10) @ [digitChar (n mod 10)])"

declare showNat.simps [simp del]

definition showInt :: "int \<Rightarrow> string" where
  "showInt i = (if i < 0 then CHR ''-'' # showNat (nat (- i)) else showNat (nat i))"

text \<open>The value of a decimal digit, and of a string of decimal digits.\<close>

definition digitVal :: "char \<Rightarrow> nat" where
  "digitVal c = length (takeWhile (\<lambda>x. x \<noteq> c) ''0123456789'')"

definition digitsVal :: "string \<Rightarrow> nat" where
  "digitsVal s = foldl (\<lambda>a c. 10 * a + digitVal c) 0 s"

definition padStart :: "nat \<Rightarrow> char \<Rightarrow> string \<Rightarrow> string" where
  "padStart n c s = replicate (n - length s) c @ s"

definition monthsShort :: "string list" where
  "monthsShort = [''Jan'', ''Feb'', ''Mar'', ''Apr'', ''May'', ''Jun'',
                  ''Jul'', ''Aug'', ''Sep'', ''Oct'', ''Nov'', ''Dec'']"

definition formatMMM :: "instant \<Rightarrow> string" where
  "formatMMM t = monthsShort ! nat (monthOf (dayOf t))"

definition formatYYYY :: "instant \<Rightarrow> string" where
  "formatYYYY t = padStart 4 CHR ''0'' (showInt (yearOf (dayOf t)))"

definition formatMMM_YYYY :: "instant \<Rightarrow> string" where
  "formatMMM_YYYY t = formatMMM t @ '' '' @ formatYYYY t"

text \<open>
  Modelled from the spec: \<^verbatim>\<open>getDateKey\<close> is imported from \<^verbatim>\<open>@/lib\<close>, which is not among
  the sources. The specification describes a DateKey as the canonical string of a calendar
  date in the format \<^verbatim>\<open>YYYY-MM-DD\<close>, the same for every instant of one local day.
\<close>

definition dateKeyOfDay :: "int \<Rightarrow> string" where
  "dateKeyOfDay d =
     padStart 4 CHR ''0'' (showInt (yearOf d)) @ ''-''
     @ padStart 2 CHR ''0'' (showInt (monthOf d + 1)) @ ''-''
     @ padStart 2 CHR ''0'' (showInt (dateOf d))"

definition getDateKey :: "instant \<Rightarrow> string" where
  "getDateKey t = dateKeyOfDay (dayOf t)"

section \<open>Habits and the calendar window\<close>

text \<open>
  Modelled from the spec: the types \<^verbatim>\<open>Habit\<close> and \<^verbatim>\<open>DateKey\<close> are imported from
  \<^verbatim>\<open>@/types\<close>, which is not among the sources. The specification gives a habit an
  identifier, a display unit and a mapping from date keys to entries, and an entry a numeric
  value. The component reads only these; the values are integers here.
\<close>

record Entry =
  entry_value :: int

record Habit =
  habit_id :: string
  habit_unit :: string
  habit_entries :: "string \<rightharpoonup> Entry"

text \<open>\<^verbatim>\<open>habit.entries[dateKey]?.value ?? 0\<close>\<close>

definition entryValue :: "(string \<rightharpoonup> Entry) \<Rightarrow> string \<Rightarrow> int" where
  "entryValue entries dateKey = (case entries dateKey of None \<Rightarrow> 0 | Some e \<Rightarrow> entry_value e)"

text \<open>\<^verbatim>\<open>const totalWeeks = isExtraSmallScreen ? 12 : 18;\<close>\<close>

definition totalWeeksOf :: "bool \<Rightarrow> nat" where
  "totalWeeksOf isExtraSmallScreen = (if isExtraSmallScreen then 12 else 18)"

text \<open>
  The inner loop \<^verbatim>\<open>for (let day = 0; day < 7; day++)\<close>. The first argument is the number
  of iterations that remain, \<open>7 - day\<close>. The loop shares the mutable \<^verbatim>\<open>date\<close> with the
  outer loop, so it returns the date together with the values; \<^verbatim>\<open>break\<close> leaves the
  loop before the date is advanced.
\<close>

fun weekValuesLoop ::
  "zone \<Rightarrow> (string \<rightharpoonup> Entry) \<Rightarrow> string \<Rightarrow> nat \<Rightarrow> instant \<Rightarrow> int list
     \<Rightarrow> int list \<times> instant" where
  "weekValuesLoop zone entries nowDateKey 0 date weekValues = (weekValues, date)"
| "weekValuesLoop zone entries nowDateKey (Suc n) date weekValues =
     (let dateKey = getDateKey date;
          weekValues' = weekValues @ [entryValue entries dateKey]
      in if dateKey = nowDateKey then (weekValues', date)
         else weekValuesLoop zone entries nowDateKey n (addDays zone 1 date) weekValues')"

text \<open>
  The outer loop \<^verbatim>\<open>for (let week = 0; week < totalWeeks; week++)\<close>; the first argument is
  the number of iterations that remain.
\<close>

fun weeksLoop ::
  "zone \<Rightarrow> (string \<rightharpoonup> Entry) \<Rightarrow> string \<Rightarrow> nat \<Rightarrow> instant \<Rightarrow> int list list
     \<Rightarrow> int list list" where
  "weeksLoop zone entries nowDateKey 0 date weeks = weeks"
| "weeksLoop zone entries nowDateKey (Suc n) date weeks =
     (case weekValuesLoop zone entries nowDateKey 7 date [] of
        (weekValues, date') \<Rightarrow> weeksLoop zone entries nowDateKey n date' (weeks @ [weekValues]))"

record CalendarData =
  cd_startDate :: instant
  cd_weeks :: "int list list"

text \<open>
  The computed \<^verbatim>\<open>data\<close> of the component. The clock is read once, as \<open>now\<close>;
  \<open>startOfWeekSetting\<close> is \<^verbatim>\<open>settingsStore.startOfWeek\<close>.
\<close>

definition calendarStartDate :: "zone \<Rightarrow> int \<Rightarrow> int \<Rightarrow> nat \<Rightarrow> instant \<Rightarrow> instant" where
  "calendarStartDate zone startOfWeekSetting offset totalWeeks now =
     (let endDate = subtractWeeks zone offset now;
          startDate = addDays zone startOfWeekSetting
                        (subtractWeeks zone (int totalWeeks) (startOf_week zone endDate))
      in if diffWeeks endDate startDate \<ge> int totalWeeks then addWeeks zone 1 startDate
         else startDate)"

definition calendarData ::
  "zone \<Rightarrow> Habit \<Rightarrow> int \<Rightarrow> int \<Rightarrow> nat \<Rightarrow> instant \<Rightarrow> CalendarData" where
  "calendarData zone habit startOfWeekSetting offset totalWeeks now =
     (let nowDateKey = getDateKey now;
          startDate = calendarStartDate zone startOfWeekSetting offset totalWeeks now
      in \<lparr> cd_startDate = startDate,
           cd_weeks = weeksLoop zone (habit_entries habit) nowDateKey totalWeeks startDate [] \<rparr>)"

definition indexesToDate :: "zone \<Rightarrow> CalendarData \<Rightarrow> nat \<Rightarrow> nat \<Rightarrow> instant" where
  "indexesToDate zone data weekIndex dayIndex =
     addDays zone (int (weekIndex * 7 + dayIndex)) (cd_startDate data)"

definition selectDate :: "zone \<Rightarrow> CalendarData \<Rightarrow> nat \<Rightarrow> nat \<Rightarrow> string" where
  "selectDate zone data weekIndex dayIndex = getDateKey (indexesToDate zone data weekIndex dayIndex)"

subsection \<open>Rendering of the grid\<close>

text \<open>
  Each value of each week becomes a cell. The week's group is translated to
  \<^verbatim>\<open>(weekIndex * CELL_SIZE, HEADER_SIZE)\<close> and the cell inside it to
  \<^verbatim>\<open>(0, dayIndex * CELL_SIZE)\<close>. The class of the rectangle and of the text depends on
  whether the value is truthy; the text is the day of the month.
\<close>

definition weekColumnOffset :: "nat \<Rightarrow> int" where
  "weekColumnOffset weekIndex = int weekIndex * CELL_SIZE"

definition truthy :: "int \<Rightarrow> bool" where
  "truthy v = (v \<noteq> 0)"

datatype Tint = Active | Inactive

definition cellTint :: "int \<Rightarrow> Tint" where
  "cellTint v = (if truthy v then Active else Inactive)"

record Cell =
  cell_x :: int
  cell_y :: int
  cell_value :: int
  cell_tint :: Tint
  cell_text :: int
  cell_onClick :: string

definition renderCell :: "zone \<Rightarrow> CalendarData \<Rightarrow> nat \<Rightarrow> nat \<Rightarrow> int \<Rightarrow> Cell" where
  "renderCell zone data weekIndex dayIndex v =
     \<lparr> cell_x = weekColumnOffset weekIndex,
       cell_y = HEADER_SIZE + int dayIndex * CELL_SIZE,
       cell_value = v,
       cell_tint = cellTint v,
       cell_text = dateOf (dayOf (indexesToDate zone data weekIndex dayIndex)),
       cell_onClick = selectDate zone data weekIndex dayIndex \<rparr>"

definition renderCells :: "zone \<Rightarrow> CalendarData \<Rightarrow> Cell list list" where
  "renderCells zone data =
     map (\<lambda>(weekIndex, week).
            map (\<lambda>(dayIndex, v). renderCell zone data weekIndex dayIndex v) (enumerate 0 week))
         (enumerate 0 (cd_weeks data))"

text \<open>
  The dialog is mounted while \<^verbatim>\<open>selectedDateKey\<close> is truthy, that is, neither
  \<^verbatim>\<open>null\<close> nor the empty string.
\<close>

record ModalProps =
  mp_habitId :: string
  mp_value :: int
  mp_unit :: string
  mp_date :: string

definition progressModal :: "Habit \<Rightarrow> string option \<Rightarrow> ModalProps option" where
  "progressModal habit selectedDateKey =
     (case selectedDateKey of
        None \<Rightarrow> None
      | Some k \<Rightarrow>
          if k = [] then None
          else Some \<lparr> mp_habitId = habit_id habit,
                      mp_value = entryValue (habit_entries habit) k,
                      mp_unit = habit_unit habit,
                      mp_date = k \<rparr>)"

subsection \<open>Month labels\<close>

text \<open>
  The loop \<^verbatim>\<open>for (let i = 0; i < totalWeeks - 1; i++)\<close> of \<^verbatim>\<open>MonthLabels\<close>; the
  first argument is the number of iterations that remain. A label is pushed when the next
  week's start is not in the month of this week's start; it sits at \<^verbatim>\<open>x = CELL_SIZE * i + 1\<close>
  and shows the month of \<^verbatim>\<open>date\<close>, with the year when it is the first label.
\<close>

record MonthLabel =
  ml_x :: int
  ml_y :: int
  ml_key :: int
  ml_text :: string

fun monthLabelsLoop ::
  "zone \<Rightarrow> nat \<Rightarrow> nat \<Rightarrow> instant \<Rightarrow> MonthLabel list \<Rightarrow> MonthLabel list" where
  "monthLabelsLoop zone 0 i date labels = labels"
| "monthLabelsLoop zone (Suc n) i date labels =
     (let nextDate = addDays zone 7 date;
          labels' =
            (if \<not> isSameMonth nextDate date
             then labels @ [\<lparr> ml_x = CELL_SIZE * int i + 1,
                              ml_y = HEADER_SIZE - 3,
                              ml_key = monthOf (dayOf date),
                              ml_text = (if length labels = 0 then formatMMM_YYYY date
                                         else formatMMM date) \<rparr>]
             else labels)
      in monthLabelsLoop zone n (i + 1) nextDate labels')"

definition MonthLabels :: "zone \<Rightarrow> instant \<Rightarrow> nat \<Rightarrow> MonthLabel list" where
  "MonthLabels zone startDate totalWeeks = monthLabelsLoop zone (totalWeeks - 1) 0 startDate []"

section \<open>JSON\<close>

text \<open>
  \<^verbatim>\<open>JSON.parse\<close> and \<^verbatim>\<open>JSON.stringify\<close> belong to the platform. They are modelled on
  strings whose characters are code units below 256 and on numbers that are integers of
  magnitude at most \<open>2^53\<close>, which a JavaScript number holds exactly. Where a text is
  valid JSON but leaves this fragment (a number with a fraction or an exponent, or beyond
  \<open>2^53\<close>, or minus zero; an escape \<^verbatim>\<open>\uXXXX\<close> of 256 or more; an object key that is
  an array index, which JavaScript would reorder), the result is \<open>OutsideModel\<close> and
  nothing is claimed about the program.
\<close>

datatype fault = SyntaxError | TypeError | OutsideModel

datatype json =
    JNull
  | JBool bool
  | JNumber int
  | JString string
  | JArray "json list"
  | JObject "(string \<times> json) list"

datatype token = LBrace | RBrace | LBracket | RBracket | Colon | Comma | Scalar json

definition DQUOTE :: char where
  "DQUOTE = CHR 0x22"

definition BACKSLASH :: char where
  "BACKSLASH = CHR 0x5C"

definition isSpace :: "char \<Rightarrow> bool" where
  "isSpace c = (c \<in> set [CHR 0x20, CHR 0x09, CHR 0x0A, CHR 0x0D])"

definition isDigit :: "char \<Rightarrow> bool" where
  "isDigit c = (c \<in> set ''0123456789'')"

definition isNumberChar :: "char \<Rightarrow> bool" where
  "isNumberChar c = (isDigit c \<or> c \<in> set ''+-.eE'')"

definition isLetter :: "char \<Rightarrow> bool" where
  "isLetter c = (c \<in> set ''abcdefghijklmnopqrstuvwxyz'')"

definition isHex :: "char \<Rightarrow> bool" where
  "isHex c = (c \<in> set ''0123456789abcdefABCDEF'')"

definition hexVal :: "char \<Rightarrow> nat" where
  "hexVal c =
     (if isDigit c then digitVal c
      else if c \<in> set ''abcdef'' then 10 + length (takeWhile (\<lambda>x. x \<noteq> c) ''abcdef'')
      else 10 + length (takeWhile (\<lambda>x. x \<noteq> c) ''ABCDEF''))"

definition hexValue :: "string \<Rightarrow> nat" where
  "hexValue s = foldl (\<lambda>a c. 16 * a + hexVal c) 0 s"

definition MAX_SAFE :: nat where
  "MAX_SAFE = 9007199254740992"

text \<open>
  The rest of a number literal after its integer part: an optional fraction and an optional
  exponent, as the grammar of JSON has them.
\<close>

definition validExponent :: "string \<Rightarrow> bool" where
  "validExponent r =
     (case r of
        [] \<Rightarrow> True
      | c # x \<Rightarrow>
          (c = CHR ''e'' \<or> c = CHR ''E'')
          \<and> (let digits = (case x of [] \<Rightarrow> [] | s # y \<Rightarrow> if s = CHR ''+'' \<or> s = CHR ''-'' then y else x)
             in digits \<noteq> [] \<and> list_all isDigit digits))"

definition validFraction :: "string \<Rightarrow> bool" where
  "validFraction r =
     (case r of
        [] \<Rightarrow> True
      | c # x \<Rightarrow>
          if c = CHR ''.'' then takeWhile isDigit x \<noteq> [] \<and> validExponent (dropWhile isDigit x)
          else validExponent r)"

definition numberToken :: "string \<Rightarrow> fault + token" where
  "numberToken lit =
     (let negative = (case lit of [] \<Rightarrow> False | c # _ \<Rightarrow> c = CHR ''-'');
          body = (if negative then tl lit else lit);
          digits = takeWhile isDigit body;
          rest = dropWhile isDigit body
      in if digits = [] \<or> (1 < length digits \<and> hd digits = CHR ''0'') then Inl SyntaxError
         else if rest = [] then
           (let n = digitsVal digits
            in if (negative \<and> n = 0) \<or> MAX_SAFE < n then Inl OutsideModel
               else Inr (Scalar (JNumber (if negative then - int n else int n))))
         else if validFraction rest then Inl OutsideModel
         else Inl SyntaxError)"

definition wordToken :: "string \<Rightarrow> fault + token" where
  "wordToken w =
     (if w = ''true'' then Inr (Scalar (JBool True))
      else if w = ''false'' then Inr (Scalar (JBool False))
      else if w = ''null'' then Inr (Scalar JNull)
      else Inl SyntaxError)"

datatype lexState =
    Between
  | InString string
  | InEscape string
  | InUnicode string string
  | InNumber string
  | InWord string

definition startChar :: "char \<Rightarrow> fault + lexState \<times> token list" where
  "startChar c =
     (if isSpace c then Inr (Between, [])
      else if c = CHR ''{'' then Inr (Between, [LBrace])
      else if c = CHR ''}'' then Inr (Between, [RBrace])
      else if c = CHR ''['' then Inr (Between, [LBracket])
      else if c = CHR '']'' then Inr (Between, [RBracket])
      else if c = CHR '':'' then Inr (Between, [Colon])
      else if c = CHR '','' then Inr (Between, [Comma])
      else if c = DQUOTE then Inr (InString [], [])
      else if isDigit c \<or> c = CHR ''-'' then Inr (InNumber [c], [])
      else if isLetter c then Inr (InWord [c], [])
      else Inl SyntaxError)"

definition afterToken :: "fault + token \<Rightarrow> char \<Rightarrow> fault + lexState \<times> token list" where
  "afterToken t c =
     (case t of
        Inl e \<Rightarrow> Inl e
      | Inr tok \<Rightarrow>
          (case startChar c of
             Inl e \<Rightarrow> Inl e
           | Inr (st, toks) \<Rightarrow> Inr (st, tok # toks)))"

definition unescape :: "char \<Rightarrow> char option" where
  "unescape c =
     (if c = DQUOTE \<or> c = BACKSLASH \<or> c = CHR ''/'' then Some c
      else if c = CHR ''b'' then Some (CHR 0x08)
      else if c = CHR ''f'' then Some (CHR 0x0C)
      else if c = CHR ''n'' then Some (CHR 0x0A)
      else if c = CHR ''r'' then Some (CHR 0x0D)
      else if c = CHR ''t'' then Some (CHR 0x09)
      else None)"

definition lexChar :: "lexState \<Rightarrow> char \<Rightarrow> fault + lexState \<times> token list" where
  "lexChar st c =
     (case st of
        Between \<Rightarrow> startChar c
      | InString acc \<Rightarrow>
          if c = DQUOTE then Inr (Between, [Scalar (JString acc)])
          else if c = BACKSLASH then Inr (InEscape acc, [])
          else if (of_char c :: nat) < 32 then Inl SyntaxError
          else Inr (InString (acc @ [c]), [])
      | InEscape acc \<Rightarrow>
          if c = CHR ''u'' then Inr (InUnicode acc [], [])
          else (case unescape c of
                  None \<Rightarrow> Inl SyntaxError
                | Some d \<Rightarrow> Inr (InString (acc @ [d]), []))
      | InUnicode acc hs \<Rightarrow>
          if \<not> isHex c then Inl SyntaxError
          else if length hs < 3 then Inr (InUnicode acc (hs @ [c]), [])
          else if hexValue (hs @ [c]) < 256 then Inr (InString (acc @ [char_of (hexValue (hs @ [c]))]), [])
          else Inl OutsideModel
      | InNumber lit \<Rightarrow>
          if isNumberChar c then Inr (InNumber (lit @ [c]), [])
          else afterToken (numberToken lit) c
      | InWord w \<Rightarrow>
          if isLetter c then Inr (InWord (w @ [c]), [])
          else afterToken (wordToken w) c)"

definition lexEnd :: "lexState \<Rightarrow> fault + token list" where
  "lexEnd st =
     (case st of
        Between \<Rightarrow> Inr []
      | InNumber lit \<Rightarrow> map_sum id (\<lambda>t. [t]) (numberToken lit)
      | InWord w \<Rightarrow> map_sum id (\<lambda>t. [t]) (wordToken w)
      | _ \<Rightarrow> Inl SyntaxError)"

fun lexFrom :: "lexState \<Rightarrow> token list \<Rightarrow> string \<Rightarrow> fault + token list" where
  "lexFrom st toks [] = map_sum id (\<lambda>ts. toks @ ts) (lexEnd st)"
| "lexFrom st toks (c # cs) =
     (case lexChar st c of
        Inl e \<Rightarrow> Inl e
      | Inr (st', ts) \<Rightarrow> lexFrom st' (toks @ ts) cs)"

definition lex :: "string \<Rightarrow> fault + token list" where
  "lex s = lexFrom Between [] s"

text \<open>
  The parser is a pushdown automaton over the tokens. The stack holds the arrays and objects
  that are open, the innermost first, each with its elements or members so far; an object
  also holds the key whose value is being read.
\<close>

datatype container = CArray "json list" | CObject "(string \<times> json) list" "string option"

datatype parseMode = MValue | MValueOrClose | MKeyOrClose | MKey | MColon | MAfter | MDone json

text \<open>
  A key that is an array index (\<^verbatim>\<open>"0"\<close>, \<^verbatim>\<open>"17"\<close>) is enumerated by JavaScript before
  the other keys, whatever the order of insertion; such objects are outside the model.
\<close>

definition isArrayIndex :: "string \<Rightarrow> bool" where
  "isArrayIndex k =
     (k \<noteq> [] \<and> list_all isDigit k \<and> (k = ''0'' \<or> hd k \<noteq> CHR ''0'') \<and> digitsVal k < 4294967295)"

text \<open>A member with a key that the object already has replaces the value in place.\<close>

definition addMember :: "(string \<times> json) list \<Rightarrow> string \<Rightarrow> json \<Rightarrow> (string \<times> json) list" where
  "addMember ms k v =
     (if k \<in> set (map fst ms) then map (\<lambda>(k', v'). if k' = k then (k', v) else (k', v')) ms
      else ms @ [(k, v)])"

definition pushValue :: "container list \<Rightarrow> json \<Rightarrow> fault + container list \<times> parseMode" where
  "pushValue stack v =
     (case stack of
        [] \<Rightarrow> Inr ([], MDone v)
      | CArray es # rest \<Rightarrow> Inr (CArray (es @ [v]) # rest, MAfter)
      | CObject ms (Some k) # rest \<Rightarrow> Inr (CObject (addMember ms k v) None # rest, MAfter)
      | CObject ms None # rest \<Rightarrow> Inl SyntaxError)"

definition closeArray :: "container list \<Rightarrow> fault + container list \<times> parseMode" where
  "closeArray stack =
     (case stack of
        CArray es # rest \<Rightarrow> pushValue rest (JArray es)
      | _ \<Rightarrow> Inl SyntaxError)"

definition closeObject :: "container list \<Rightarrow> fault + container list \<times> parseMode" where
  "closeObject stack =
     (case stack of
        CObject ms _ # rest \<Rightarrow> pushValue rest (JObject ms)
      | _ \<Rightarrow> Inl SyntaxError)"

definition readValue :: "bool \<Rightarrow> container list \<Rightarrow> token \<Rightarrow> fault + container list \<times> parseMode" where
  "readValue mayClose stack t =
     (case t of
        Scalar v \<Rightarrow> pushValue stack v
      | LBracket \<Rightarrow> Inr (CArray [] # stack, MValueOrClose)
      | LBrace \<Rightarrow> Inr (CObject [] None # stack, MKeyOrClose)
      | RBracket \<Rightarrow> if mayClose then closeArray stack else Inl SyntaxError
      | _ \<Rightarrow> Inl SyntaxError)"

definition readKey :: "bool \<Rightarrow> container list \<Rightarrow> token \<Rightarrow> fault + container list \<times> parseMode" where
  "readKey mayClose stack t =
     (case t of
        Scalar (JString k) \<Rightarrow>
          (case stack of
             CObject ms _ # rest \<Rightarrow>
               if isArrayIndex k then Inl OutsideModel
               else Inr (CObject ms (Some k) # rest, MColon)
           | _ \<Rightarrow> Inl SyntaxError)
      | RBrace \<Rightarrow> if mayClose then closeObject stack else Inl SyntaxError
      | _ \<Rightarrow> Inl SyntaxError)"

definition parseStep :: "container list \<times> parseMode \<Rightarrow> token \<Rightarrow> fault + container list \<times> parseMode" where
  "parseStep state t =
     (case state of
        (stack, MValue) \<Rightarrow> readValue False stack t
      | (stack, MValueOrClose) \<Rightarrow> readValue True stack t
      | (stack, MKeyOrClose) \<Rightarrow> readKey True stack t
      | (stack, MKey) \<Rightarrow> readKey False stack t
      | (stack, MColon) \<Rightarrow> (case t of Colon \<Rightarrow> Inr (stack, MValue) | _ \<Rightarrow> Inl SyntaxError)
      | (stack, MAfter) \<Rightarrow>
          (case t of
             Comma \<Rightarrow>
               (case stack of
                  CArray _ # _ \<Rightarrow> Inr (stack, MValue)
                | CObject _ _ # _ \<Rightarrow> Inr (stack, MKey)
                | [] \<Rightarrow> Inl SyntaxError)
           | RBracket \<Rightarrow> closeArray stack
           | RBrace \<Rightarrow> closeObject stack
           | _ \<Rightarrow> Inl SyntaxError)
      | (stack, MDone v) \<Rightarrow> Inl SyntaxError)"

fun parseTokens :: "container list \<times> parseMode \<Rightarrow> token list \<Rightarrow> fault + json" where
  "parseTokens state [] =
     (case state of
        ([], MDone v) \<Rightarrow> Inr v
      | _ \<Rightarrow> Inl SyntaxError)"
| "parseTokens state (t # ts) =
     (case parseStep state t of
        Inl e \<Rightarrow> Inl e
      | Inr state' \<Rightarrow> parseTokens state' ts)"

definition JSON_parse :: "string \<Rightarrow> fault + json" where
  "JSON_parse text =
     (case lex text of
        Inl e \<Rightarrow> Inl e
      | Inr toks \<Rightarrow> parseTokens ([], MValue) toks)"

subsection \<open>Serialization\<close>

definition hexDigit :: "nat \<Rightarrow> char" where
  "hexDigit n = ''0123456789abcdef'' ! n"

definition quoteChar :: "char \<Rightarrow> string" where
  "quoteChar c =
     (if c = DQUOTE then [BACKSLASH, DQUOTE]
      else if c = BACKSLASH then [BACKSLASH, BACKSLASH]
      else if c = CHR 0x08 then [BACKSLASH, CHR ''b'']
      else if c = CHR 0x0C then [BACKSLASH, CHR ''f'']
      else if c = CHR 0x0A then [BACKSLASH, CHR ''n'']
      else if c = CHR 0x0D then [BACKSLASH, CHR ''r'']
      else if c = CHR 0x09 then [BACKSLASH, CHR ''t'']
      else if (of_char c :: nat) < 32
        then [BACKSLASH, CHR ''u'', CHR ''0'', CHR ''0'', hexDigit (of_char c div 16), hexDigit (of_char c mod 16)]
      else [c])"

definition quote :: "string \<Rightarrow> string" where
  "quote s = DQUOTE # concat (map quoteChar s) @ [DQUOTE]"

fun join :: "string \<Rightarrow> string list \<Rightarrow> string" where
  "join sep [] = []"
| "join sep [x] = x"
| "join sep (x # y # ys) = x @ sep @ join sep (y # ys)"

fun stringify :: "json \<Rightarrow> string" where
  "stringify JNull = ''null''"
| "stringify (JBool b) = (if b then ''true'' else ''false'')"
| "stringify (JNumber n) = showInt n"
| "stringify (JString s) = quote s"
| "stringify (JArray vs) = ''['' @ join '','' (map stringify vs) @ '']''"
| "stringify (JObject ms) =
     ''{'' @ join '','' (map (\<lambda>m. quote (fst m) @ '':'' @ stringify (snd m)) ms) @ ''}''"

fun inModel :: "json \<Rightarrow> bool" where
  "inModel (JNumber n) = (\<bar>n\<bar> \<le> int MAX_SAFE)"
| "inModel (JArray vs) = list_all inModel vs"
| "inModel (JObject ms) = list_all (\<lambda>m. \<not> isArrayIndex (fst m) \<and> inModel (snd m)) ms"
| "inModel _ = True"

definition JSON_stringify :: "json \<Rightarrow> fault + string" where
  "JSON_stringify v = (if inModel v then Inr (stringify v) else Inl OutsideModel)"

section \<open>The settings store\<close>

text \<open>
  \<^verbatim>\<open>localStorage\<close> maps keys to strings; \<^verbatim>\<open>getItem\<close> gives \<^verbatim>\<open>null\<close> for a key that
  is absent.
\<close>

type_synonym storage = "string \<rightharpoonup> string"

definition SETTINGS_KEY :: string where
  "SETTINGS_KEY = ''habits.settings''"

text \<open>
  The store holds whatever value it was given: the type \<^verbatim>\<open>WeekDay\<close> is not checked when
  the program runs, so the field is a JSON value here.
\<close>

record SettingsStore =
  startOfWeek :: json

text \<open>
  Reading the property \<^verbatim>\<open>startOfWeek\<close> of a value that is not \<^verbatim>\<open>null\<close>;
  \<open>None\<close> is \<^verbatim>\<open>undefined\<close>. Only an object can have the property.
\<close>

definition propStartOfWeek :: "json \<Rightarrow> json option" where
  "propStartOfWeek v = (case v of JObject ms \<Rightarrow> map_of ms ''startOfWeek'' | _ \<Rightarrow> None)"

text \<open>
  \<^verbatim>\<open>function saveSettings(settings) {
    localStorage.setItem(SETTINGS_KEY, JSON.stringify(settings)); }\<close>
  The store has the one enumerable property \<^verbatim>\<open>startOfWeek\<close>.
\<close>

definition saveSettings :: "SettingsStore \<Rightarrow> storage \<Rightarrow> fault + storage" where
  "saveSettings settings ls =
     (case JSON_stringify (JObject [(''startOfWeek'', startOfWeek settings)]) of
        Inl e \<Rightarrow> Inl e
      | Inr text \<Rightarrow> Inr (ls(SETTINGS_KEY \<mapsto> text)))"

text \<open>
  \<^verbatim>\<open>function loadSettings() {
    const value = localStorage.getItem(SETTINGS_KEY);
    return value ? JSON.parse(value) : null; }\<close>
  The empty string is falsy, as \<^verbatim>\<open>null\<close> is.
\<close>

definition loadSettings :: "storage \<Rightarrow> fault + json" where
  "loadSettings ls =
     (case ls SETTINGS_KEY of
        None \<Rightarrow> Inr JNull
      | Some v \<Rightarrow> if v = [] then Inr JNull else JSON_parse v)"

text \<open>The field initializer \<^verbatim>\<open>startOfWeek = savedSettings?.startOfWeek ?? 0\<close>.\<close>

definition newSettingsStore :: "json \<Rightarrow> SettingsStore" where
  "newSettingsStore savedSettings =
     \<lparr> startOfWeek =
         (case (if savedSettings = JNull then None else propStartOfWeek savedSettings) of
            None \<Rightarrow> JNumber 0
          | Some JNull \<Rightarrow> JNumber 0
          | Some v \<Rightarrow> v) \<rparr>"

text \<open>
  \<^verbatim>\<open>updateSettings({ startOfWeek }) {
    if (startOfWeek !== undefined) { this.startOfWeek = startOfWeek; } }\<close>
  Destructuring \<^verbatim>\<open>null\<close> raises a \<^verbatim>\<open>TypeError\<close>.
\<close>

definition updateSettings :: "json \<Rightarrow> SettingsStore \<Rightarrow> fault + SettingsStore" where
  "updateSettings settings this =
     (if settings = JNull then Inl TypeError
      else case propStartOfWeek settings of
             None \<Rightarrow> Inr this
           | Some v \<Rightarrow> Inr (this\<lparr> startOfWeek := v \<rparr>))"

definition setStartOfWeek :: "json \<Rightarrow> SettingsStore \<Rightarrow> SettingsStore" where
  "setStartOfWeek v this = this\<lparr> startOfWeek := v \<rparr>"

text \<open>
  One tab of the application: the store and the local storage as the tab sees it.
  \<^verbatim>\<open>autorun(() => saveSettings(settingsStore))\<close> runs once when the module is loaded and
  again after every action that assigned a changed value to the observed property. An action
  that assigns nothing does not make it run. An array or an object that is assigned is a new
  reference, which always counts as a change.
\<close>

record Tab =
  settingsStore :: SettingsStore
  localStorage :: storage

definition isScalar :: "json \<Rightarrow> bool" where
  "isScalar v = (case v of JArray _ \<Rightarrow> False | JObject _ \<Rightarrow> False | _ \<Rightarrow> True)"

definition autorun :: "Tab \<Rightarrow> fault + Tab" where
  "autorun tab =
     (case saveSettings (settingsStore tab) (localStorage tab) of
        Inl e \<Rightarrow> Inl e
      | Inr ls \<Rightarrow> Inr (tab\<lparr> localStorage := ls \<rparr>))"

definition afterAction :: "SettingsStore \<Rightarrow> json option \<Rightarrow> Tab \<Rightarrow> fault + Tab" where
  "afterAction before assigned tab =
     (case assigned of
        None \<Rightarrow> Inr tab
      | Some v \<Rightarrow> if v \<noteq> startOfWeek before \<or> \<not> isScalar v then autorun tab else Inr tab)"

text \<open>
  Loading the module: \<^verbatim>\<open>const savedSettings = loadSettings()\<close>, the construction of the
  store, and the first run of \<^verbatim>\<open>autorun\<close>. An exception of \<^verbatim>\<open>loadSettings\<close> is not
  caught.
\<close>

definition initModule :: "storage \<Rightarrow> fault + Tab" where
  "initModule ls =
     (case loadSettings ls of
        Inl e \<Rightarrow> Inl e
      | Inr savedSettings \<Rightarrow>
          autorun \<lparr> settingsStore = newSettingsStore savedSettings, localStorage = ls \<rparr>)"

text \<open>
  The listener of the \<^verbatim>\<open>storage\<close> event:
  \<^verbatim>\<open>if (event.key === SETTINGS_KEY && event.newValue) {
    settingsStore.updateSettings(JSON.parse(event.newValue) as Settings); }\<close>
\<close>

record StorageEvent =
  ev_key :: "string option"
  ev_newValue :: "string option"

definition onStorage :: "StorageEvent \<Rightarrow> Tab \<Rightarrow> fault + Tab" where
  "onStorage event tab =
     (case ev_newValue event of
        None \<Rightarrow> Inr tab
      | Some v \<Rightarrow>
          if ev_key event = Some SETTINGS_KEY \<and> v \<noteq> [] then
            (case JSON_parse v of
               Inl e \<Rightarrow> Inl e
             | Inr settings \<Rightarrow>
                 (case updateSettings settings (settingsStore tab) of
                    Inl e \<Rightarrow> Inl e
                  | Inr this \<Rightarrow>
                      afterAction (settingsStore tab) (propStartOfWeek settings)
                        (tab\<lparr> settingsStore := this \<rparr>)))
          else Inr tab)"

text \<open>The actions that reach the store, and a run of them in one tab.\<close>

datatype Action =
    SetStartOfWeek json
  | UpdateSettings json
  | Storage StorageEvent

definition perform :: "Action \<Rightarrow> Tab \<Rightarrow> fault + Tab" where
  "perform a tab =
     (case a of
        SetStartOfWeek v \<Rightarrow>
          afterAction (settingsStore tab) (Some v)
            (tab\<lparr> settingsStore := setStartOfWeek v (settingsStore tab) \<rparr>)
      | UpdateSettings settings \<Rightarrow>
          (case updateSettings settings (settingsStore tab) of
             Inl e \<Rightarrow> Inl e
           | Inr this \<Rightarrow>
               afterAction (settingsStore tab) (propStartOfWeek settings)
                 (tab\<lparr> settingsStore := this \<rparr>))
      | Storage event \<Rightarrow> onStorage event tab)"

fun performAll :: "Action list \<Rightarrow> Tab \<Rightarrow> fault + Tab" where
  "performAll [] tab = Inr tab"
| "performAll (a # as) tab =
     (case perform a tab of
        Inl e \<Rightarrow> Inl e
      | Inr tab' \<Rightarrow> performAll as tab')"

text \<open>The storage holds the serialization of the store.\<close>

definition persisted :: "Tab \<Rightarrow> bool" where
  "persisted tab =
     (case JSON_stringify (JObject [(''startOfWeek'', startOfWeek (settingsStore tab))]) of
        Inl e \<Rightarrow> False
      | Inr text \<Rightarrow> localStorage tab SETTINGS_KEY = Some text)"

section \<open>Notions used in the statements\<close>

text \<open>A habit with two entries, for the examples.\<close>

definition exampleHabit :: Habit where
  "exampleHabit =
     \<lparr> habit_id = ''h1'', habit_unit = ''pages'',
       habit_entries = [''2024-01-23'' \<mapsto> \<lparr> entry_value = 12 \<rparr>,
                        ''2024-01-02'' \<mapsto> \<lparr> entry_value = 3 \<rparr>] \<rparr>"


text \<open>
  Two zones for the examples. In the first the clocks never change. The second is
  America/Santiago around the change of 8 September 2024 (day 19974), when the clocks went
  from 24:00 on the 7th to 01:00 on the 8th: the readings of the first hour of that day are
  skipped. (The zone's other changes lie outside the months looked at.)
\<close>

definition noClockChange :: zone where
  "noClockChange t = t"

definition santiago2024 :: zone where
  "santiago2024 t =
     (if midnight 19974 \<le> t \<and> t < midnight 19974 + 3600000 then t + 3600000 else t)"

text \<open>
  A zone in which every reading that is asked for resolves to a reading of the same day; and
  a zone in which no clock change skips a midnight.
\<close>

definition staysInDay :: "zone \<Rightarrow> bool" where
  "staysInDay zone = (\<forall>t. dayOf (zone t) = dayOf t)"

definition midnightsExist :: "zone \<Rightarrow> bool" where
  "midnightsExist zone = (\<forall>d. zone (midnight d) = midnight d)"

text \<open>
  The position of a day in the week that begins on the configured start of the week: 0 for
  the start day itself, 6 for the last day of that week.
\<close>

definition weekPosition :: "int \<Rightarrow> int \<Rightarrow> int" where
  "weekPosition s d = (weekdayOf d - s) mod 7"


text \<open>
  The value of the entry of a day, and the values of the first \<open>n\<close> days of week
  \<open>w\<close> of a window whose first day is \<open>startDay\<close>.
\<close>

definition valueOfDay :: "(string \<rightharpoonup> Entry) \<Rightarrow> int \<Rightarrow> int" where
  "valueOfDay entries d = entryValue entries (dateKeyOfDay d)"

definition weekSpan :: "(string \<rightharpoonup> Entry) \<Rightarrow> int \<Rightarrow> nat \<Rightarrow> nat \<Rightarrow> int list" where
  "weekSpan entries startDay w n =
     map (\<lambda>d. valueOfDay entries (startDay + int (w * 7 + d))) [0..<n]"


text \<open>The year that begins in March, as the calendar computation counts years.\<close>

definition marchYear :: "int \<Rightarrow> int" where
  "marchYear d = yearOfEra d + 400 * ((d + 719468) div 146097)"


text \<open>
  Reading a year back as \<open>formatYYYY\<close> and \<open>dateKeyOfDay\<close> print it: left-padded
  with zeros, a minus sign before the digits of a negative year.
\<close>

definition yearVal :: "string \<Rightarrow> int" where
  "yearVal s =
     (if CHR ''-'' \<in> set s then - int (digitsVal (tl (dropWhile (\<lambda>c. c \<noteq> CHR ''-'') s)))
      else int (digitsVal s))"


text \<open>
  The start of week \<open>i\<close> as \<^verbatim>\<open>MonthLabels\<close> reaches it, by adding 7 days \<open>i\<close>
  times; whether the month changes between the starts of weeks \<open>i\<close> and \<open>i + 1\<close>; and
  the label that \<^verbatim>\<open>MonthLabels\<close> pushes in iteration \<open>i\<close>.
\<close>

definition weekStart :: "zone \<Rightarrow> instant \<Rightarrow> nat \<Rightarrow> instant" where
  "weekStart zone startDate i = (addDays zone 7 ^^ i) startDate"

definition monthChanges :: "zone \<Rightarrow> instant \<Rightarrow> nat \<Rightarrow> bool" where
  "monthChanges zone startDate i =
     (\<not> isSameMonth (weekStart zone startDate (i + 1)) (weekStart zone startDate i))"

definition monthLabel :: "zone \<Rightarrow> instant \<Rightarrow> nat \<Rightarrow> bool \<Rightarrow> MonthLabel" where
  "monthLabel zone startDate i first =
     \<lparr> ml_x = CELL_SIZE * int i + 1,
       ml_y = HEADER_SIZE - 3,
       ml_key = monthOf (dayOf (weekStart zone startDate i)),
       ml_text = (if first then formatMMM_YYYY (weekStart zone startDate i)
                  else formatMMM (weekStart zone startDate i)) \<rparr>"

fun labelsFrom :: "zone \<Rightarrow> instant \<Rightarrow> nat \<Rightarrow> nat list \<Rightarrow> MonthLabel list" where
  "labelsFrom zone startDate c [] = []"
| "labelsFrom zone startDate c (i # is) =
     monthLabel zone startDate i (c = 0) # labelsFrom zone startDate (Suc c) is"


section \<open>Properties\<close>

lemma shiftRight_nonneg: "0 \<le> shiftRight offset"
  by (simp add: shiftRight_def)

lemma pageStep_nonneg: "0 \<le> offset \<Longrightarrow> 0 \<le> pageStep offset a"
  by (cases a) (simp_all add: shiftLeft_def shiftRight_def)

lemma foldl_pageStep_nonneg: "0 \<le> offset \<Longrightarrow> 0 \<le> foldl pageStep offset acts"
  by (induction acts arbitrary: offset) (simp_all add: pageStep_nonneg)

text \<open>
  C7. Paging bounds: whatever sequence of shift-left and shift-right invocations is made
  from the initial offset 0, the offset stays at or above 0, one more shift-right moves it
  to \<open>max 0 (offset - 1)\<close> (so it stays at 0 when it is 0), and the shift-right control
  is disabled exactly when the offset is 0.
\<close>

theorem paging_bounds:
  "0 \<le> pageRun acts
   \<and> pageRun (acts @ [ShiftRight]) = max 0 (pageRun acts - 1)
   \<and> 0 \<le> pageRun (acts @ [ShiftRight])
   \<and> shiftRightDisabled (pageRun acts) = (pageRun acts = 0)"
  by (simp add: pageRun_def initialOffset_def foldl_pageStep_nonneg shiftRight_def
      shiftRightDisabled_def)

lemma renderedWeekDays_eq: "renderedWeekDays s n = rotatedWeekDays s"
proof -
  have "map (\<lambda>(index, name). name) (enumerate k xs) = xs" for k :: nat and xs :: "string list"
    by (induction xs arbitrary: k) simp_all
  moreover have "wl_text \<circ> (\<lambda>(index, name). \<lparr> wl_y = 7 + CELL_SIZE * int index, wl_key = name, wl_text = name \<rparr>)
      = (\<lambda>(index, name). name)"
    by (rule ext) (simp add: split_def)
  ultimately show ?thesis
    by (simp add: renderedWeekDays_def WeekDayLabels_def)
qed

lemma rotatedWeekDays_in_range:
  assumes "0 \<le> s" "s < 7"
  shows "rotatedWeekDays s = rotate (nat s) weekDays"
proof -
  have len: "length weekDays = 7"
    by (simp add: weekDays_def)
  from assms have "nat s mod length weekDays = nat s"
    by (simp add: len)
  then have "rotate (nat s) weekDays = drop (nat s) weekDays @ take (nat s) weekDays"
    by (simp add: rotate_drop_take)
  moreover from assms have "sliceFrom weekDays s = drop (nat s) weekDays"
    by (simp add: sliceFrom_def slice_def sliceIndex_def len Let_def)
  moreover from assms have "slice weekDays 0 s = take (nat s) weekDays"
    by (simp add: slice_def sliceIndex_def len Let_def)
  ultimately show ?thesis
    by (simp add: rotatedWeekDays_def)
qed

lemma rotatedWeekDays_large: "7 \<le> s \<Longrightarrow> rotatedWeekDays s = weekDays"
  by (simp add: rotatedWeekDays_def sliceFrom_def slice_def sliceIndex_def weekDays_def Let_def)

lemma rotatedWeekDays_small: "s \<le> - 7 \<Longrightarrow> rotatedWeekDays s = weekDays"
  by (simp add: rotatedWeekDays_def sliceFrom_def slice_def sliceIndex_def weekDays_def Let_def)

lemma rotatedWeekDays_negative:
  assumes "- 7 < s" "s < 0"
  shows "rotatedWeekDays s = rotate (nat (7 + s)) weekDays"
proof -
  have len: "length weekDays = 7"
    by (simp add: weekDays_def)
  from assms have "nat (7 + s) mod length weekDays = nat (7 + s)"
    by (simp add: len)
  then have "rotate (nat (7 + s)) weekDays = drop (nat (7 + s)) weekDays @ take (nat (7 + s)) weekDays"
    by (simp add: rotate_drop_take)
  moreover from assms have "sliceFrom weekDays s = drop (nat (7 + s)) weekDays"
    by (simp add: sliceFrom_def slice_def sliceIndex_def len Let_def)
  moreover from assms have "slice weekDays 0 s = take (nat (7 + s)) weekDays"
    by (simp add: slice_def sliceIndex_def len Let_def)
  ultimately show ?thesis
    by (simp add: rotatedWeekDays_def)
qed

lemma rotatedWeekDays_rotate: "rotatedWeekDays s = rotate (nat (s mod 7)) weekDays \<or> rotatedWeekDays s = weekDays"
proof -
  consider "7 \<le> s" | "s \<le> - 7" | "0 \<le> s \<and> s < 7" | "- 7 < s \<and> s < 0"
    by linarith
  then show ?thesis
  proof cases
    case 1
    then show ?thesis by (simp add: rotatedWeekDays_large)
  next
    case 2
    then show ?thesis by (simp add: rotatedWeekDays_small)
  next
    case 3
    then show ?thesis by (simp add: rotatedWeekDays_in_range)
  next
    case 4
    then have "s mod 7 = 7 + s"
      by presburger
    with 4 show ?thesis by (simp add: rotatedWeekDays_negative)
  qed
qed

text \<open>
  C8. Weekday label rotation: for every start of week \<open>s\<close> from 0 to 6 the rendered
  weekday labels are the list Sun, Mon, Tue, Wed, Thu, Fri, Sat rotated left by \<open>s\<close>, so
  that the configured start day comes first; for the start of week 2 they are Tue, Wed, Thu,
  Fri, Sat, Sun, Mon.
\<close>

theorem weekday_label_rotation:
  assumes "0 \<le> s" and "s \<le> 6"
  shows "renderedWeekDays s totalWeeks
           = rotate (nat s) [''Sun'', ''Mon'', ''Tue'', ''Wed'', ''Thu'', ''Fri'', ''Sat'']
         \<and> hd (renderedWeekDays s totalWeeks)
           = [''Sun'', ''Mon'', ''Tue'', ''Wed'', ''Thu'', ''Fri'', ''Sat''] ! nat s
         \<and> renderedWeekDays 2 totalWeeks
           = [''Tue'', ''Wed'', ''Thu'', ''Fri'', ''Sat'', ''Sun'', ''Mon'']"
proof -
  from assms have rot: "renderedWeekDays s totalWeeks = rotate (nat s) weekDays"
    by (simp add: renderedWeekDays_eq rotatedWeekDays_in_range)
  from assms have "nat s < length weekDays"
    by (simp add: weekDays_def)
  then have "hd (rotate (nat s) weekDays) = weekDays ! nat s"
    by (simp add: hd_rotate_conv_nth weekDays_def)
  moreover have "renderedWeekDays 2 totalWeeks = [''Tue'', ''Wed'', ''Thu'', ''Fri'', ''Sat'', ''Sun'', ''Mon'']"
    by (simp add: renderedWeekDays_eq rotatedWeekDays_def sliceFrom_def slice_def sliceIndex_def
        weekDays_def Let_def)
  ultimately show ?thesis
    using rot by (simp add: weekDays_def)
qed

theorem weekday_label_rotation_witness:
  "renderedWeekDays 5 18 = [''Fri'', ''Sat'', ''Sun'', ''Mon'', ''Tue'', ''Wed'', ''Thu'']
   \<and> hd (renderedWeekDays 5 18) = ''Fri''"
  using weekday_label_rotation [of 5 18] by (simp add: numeral_eq_Suc rotate1_def)

text \<open>
  C10. For every integer start of week, in range or not, the weekday label renderer
  yields exactly seven labels, which are a rotation of the seven abbreviations (so none is
  missing and none is repeated); for every start of week of 7 or more the labels are in the
  unrotated order that begins with Sun.
\<close>

theorem weekday_labels_total:
  "length (renderedWeekDays s totalWeeks) = 7
   \<and> (\<exists>k. k < 7 \<and> renderedWeekDays s totalWeeks = rotate k weekDays)
   \<and> distinct (renderedWeekDays s totalWeeks)
   \<and> set (renderedWeekDays s totalWeeks) = set weekDays
   \<and> (7 \<le> s \<longrightarrow> renderedWeekDays s totalWeeks = weekDays)"
proof -
  have rot: "\<exists>k. k < 7 \<and> rotatedWeekDays s = rotate k weekDays"
  proof -
    from rotatedWeekDays_rotate [of s] show ?thesis
    proof
      assume "rotatedWeekDays s = rotate (nat (s mod 7)) weekDays"
      moreover have "nat (s mod 7) < 7"
        by simp
      ultimately show ?thesis
        by (intro exI [of _ "nat (s mod 7)"]) simp
    next
      assume "rotatedWeekDays s = weekDays"
      then have "rotatedWeekDays s = rotate 0 weekDays"
        by simp
      then show ?thesis
        by (intro exI [of _ 0]) simp
    qed
  qed
  then obtain k where k: "k < 7" "rotatedWeekDays s = rotate k weekDays"
    by blast
  have "distinct weekDays"
    by (simp add: weekDays_def)
  with k have "distinct (rotatedWeekDays s)" "set (rotatedWeekDays s) = set weekDays"
    "length (rotatedWeekDays s) = 7"
    by (simp_all add: weekDays_def)
  with rot show ?thesis
    by (simp add: renderedWeekDays_eq rotatedWeekDays_large)
qed

theorem weekday_labels_total_witness:
  "length (renderedWeekDays 9 18) = 7
   \<and> distinct (renderedWeekDays 9 18)
   \<and> renderedWeekDays 9 18 = [''Sun'', ''Mon'', ''Tue'', ''Wed'', ''Thu'', ''Fri'', ''Sat'']"
  using weekday_labels_total [of 9 18] by (simp add: weekDays_def)


subsection \<open>The civil calendar and date keys\<close>

lemma div_bounds:
  fixes a n :: int
  assumes "0 < n"
  shows "n * (a div n) \<le> a" and "a < n * (a div n) + n"
proof -
  have "a = n * (a div n) + a mod n"
    by simp
  moreover from assms have "0 \<le> a mod n" "a mod n < n"
    by simp_all
  ultimately show "n * (a div n) \<le> a" and "a < n * (a div n) + n"
    by linarith+
qed

lemma div_unique:
  fixes a n y :: int
  assumes "n * y \<le> a" "a < n * y + n" "0 < n"
  shows "a div n = y"
proof -
  have "a = y * n + (a - n * y)"
    by (simp add: algebra_simps)
  moreover from assms have "0 \<le> a - n * y" "a - n * y < n"
    by simp_all
  ultimately show ?thesis
    by (metis div_pos_pos_trivial div_mult_self3 add.commute add.right_neutral assms(3) less_irrefl)
qed

lemma era_decomposition:
  fixes doe :: int
  assumes "0 \<le> doe" "doe \<le> 146095"
  obtains c q k t where "doe = 36524 * c + 1461 * q + 365 * k + t"
    "0 \<le> c" "c \<le> 3" "0 \<le> q" "q \<le> 24" "0 \<le> k" "k \<le> 3" "0 \<le> t" "t \<le> 365"
    "t = 365 \<longrightarrow> k = 3" "1461 * q + 365 * k + t < 36524"
proof -
  define c where "c = doe div 36524"
  define r1 where "r1 = doe - 36524 * c"
  define q where "q = r1 div 1461"
  define r2 where "r2 = r1 - 1461 * q"
  define j where "j = r2 div 365"
  define k where "k = min 3 j"
  define t where "t = r2 - 365 * k"
  have c0: "36524 * c \<le> doe" "doe < 36524 * c + 36524"
    unfolding c_def by (rule div_bounds, simp)+
  with assms have c: "0 \<le> c" "c \<le> 3" and r1: "0 \<le> r1" "r1 < 36524"
    unfolding r1_def by linarith+
  have q0: "1461 * q \<le> r1" "r1 < 1461 * q + 1461"
    unfolding q_def by (rule div_bounds, simp)+
  with r1 have q: "0 \<le> q" "q \<le> 24" and r2: "0 \<le> r2" "r2 < 1461"
    unfolding r2_def by linarith+
  have j0: "365 * j \<le> r2" "r2 < 365 * j + 365"
    unfolding j_def by (rule div_bounds, simp)+
  with r2 have j: "0 \<le> j" "j \<le> 4"
    by linarith+
  then have k: "0 \<le> k" "k \<le> 3"
    unfolding k_def by simp_all
  have tt: "0 \<le> t \<and> t \<le> 365 \<and> (t = 365 \<longrightarrow> k = 3)"
  proof (cases "3 \<le> j")
    case True
    then have "k = 3"
      by (simp add: k_def)
    with True j0 r2 show ?thesis
      unfolding t_def by simp
  next
    case False
    then have "k = j"
      by (simp add: k_def)
    with j0 show ?thesis
      unfolding t_def by simp
  qed
  then have t: "0 \<le> t" "t \<le> 365" and t365: "t = 365 \<longrightarrow> k = 3"
    by simp_all
  have dec: "doe = 36524 * c + 1461 * q + 365 * k + t"
    by (simp add: t_def r2_def r1_def)
  from r1 have "1461 * q + 365 * k + t < 36524"
    by (simp add: t_def r2_def)
  with dec c q k t t365 show ?thesis
    by (rule that)
qed


lemma year_of_era:
  fixes doe :: int
  assumes "0 \<le> doe" "doe \<le> 146096"
  defines "yoe \<equiv> (doe - doe div 1460 + doe div 36524 - doe div 146096) div 365"
  defines "doy \<equiv> doe - (365 * yoe + yoe div 4 - yoe div 100)"
  shows "0 \<le> yoe \<and> yoe \<le> 399 \<and> 0 \<le> doy \<and> doy \<le> 365"
proof (cases "doe = 146096")
  case True
  then show ?thesis
    by (simp add: yoe_def doy_def)
next
  case False
  with assms have "doe \<le> 146095"
    by simp
  with assms(1) obtain c q k t where dec: "doe = 36524 * c + 1461 * q + 365 * k + t"
    and c: "0 \<le> c" "c \<le> 3" and q: "0 \<le> q" "q \<le> 24" and k: "0 \<le> k" "k \<le> 3"
    and t: "0 \<le> t" "t \<le> 365" and t365: "t = 365 \<longrightarrow> k = 3"
    and r1: "1461 * q + 365 * k + t < 36524"
    by (rule era_decomposition)
  define y where "y = 100 * c + 4 * q + k"
  define rho where "rho = 24 * c + q + 365 * k + t"
  define b where "b = (if 1460 \<le> rho then 1 else 0 :: int)"
  have rho: "0 \<le> rho" "rho < 2920"
    using c q k t unfolding rho_def by linarith+
  have b: "0 \<le> b" "b \<le> 1" "1460 * b \<le> rho" "rho < 1460 * b + 1460"
    using rho unfolding b_def by simp_all
  have "doe = 1460 * (25 * c + q) + rho"
    by (simp add: dec rho_def)
  with b have d1460: "doe div 1460 = 25 * c + q + b"
    by (intro div_unique) simp_all
  have d36524: "doe div 36524 = c"
    using r1 q k t by (intro div_unique) (simp_all add: dec)
  have d146096: "doe div 146096 = 0"
    using assms(1) \<open>doe \<le> 146095\<close> by simp
  have g: "doe - doe div 1460 + doe div 36524 - doe div 146096 = 365 * y + (t - b)"
    unfolding d1460 d36524 d146096 by (simp add: dec y_def)
  have low: "0 \<le> t - b"
  proof (cases "1460 \<le> rho")
    case True
    with c q k have "269 \<le> t"
      unfolding rho_def by linarith
    with b show ?thesis by simp
  next
    case False
    with t show ?thesis by (simp add: b_def)
  qed
  have high: "t - b \<le> 364"
  proof (cases "t = 365")
    case True
    with t365 have "k = 3" by simp
    with True c q have "1460 \<le> rho"
      unfolding rho_def by simp
    with True show ?thesis by (simp add: b_def)
  next
    case False
    with t b show ?thesis by simp
  qed
  have yoe: "yoe = y"
    unfolding yoe_def g using low high by (intro div_unique) simp_all
  have y4: "y div 4 = 25 * c + q"
    using k by (intro div_unique) (simp_all add: y_def)
  have y100: "y div 100 = c"
    using k q by (intro div_unique) (simp_all add: y_def)
  have doy: "doy = t"
    by (simp add: doy_def yoe y4 y100) (simp add: dec y_def)
  from c q k have "0 \<le> y" "y \<le> 399"
    unfolding y_def by linarith+
  with t show ?thesis
    by (simp add: yoe doy)
qed


lemma dayOfEra_range: "0 \<le> dayOfEra d \<and> dayOfEra d \<le> 146096"
  by (simp add: dayOfEra_def) 

lemma yearOfEra_range: "0 \<le> yearOfEra d \<and> yearOfEra d \<le> 399"
  using year_of_era [of "dayOfEra d"] dayOfEra_range [of d]
  by (simp add: yearOfEra_def Let_def)

lemma dayOfMarchYear_range: "0 \<le> dayOfMarchYear d \<and> dayOfMarchYear d \<le> 365"
  using year_of_era [of "dayOfEra d"] dayOfEra_range [of d]
  by (simp add: dayOfMarchYear_def yearOfEra_def Let_def)

lemma marchMonth_range: "0 \<le> marchMonth d \<and> marchMonth d \<le> 11"
proof -
  define doy where "doy = dayOfMarchYear d"
  have "0 \<le> doy" "doy \<le> 365"
    using dayOfMarchYear_range [of d] by (simp_all add: doy_def)
  moreover have "153 * ((5 * doy + 2) div 153) \<le> 5 * doy + 2"
    "5 * doy + 2 < 153 * ((5 * doy + 2) div 153) + 153"
    by (rule div_bounds, simp)+
  ultimately show ?thesis
    unfolding marchMonth_def doy_def [symmetric] by linarith
qed

lemma monthOf_range: "0 \<le> monthOf d \<and> monthOf d \<le> 11"
  using marchMonth_range [of d] by (simp add: monthOf_def Let_def)

lemma dateOf_range: "1 \<le> dateOf d \<and> dateOf d \<le> 31"
proof -
  define doy where "doy = dayOfMarchYear d"
  define mp where "mp = marchMonth d"
  define e where "e = (153 * mp + 2) div 5"
  have mp: "0 \<le> mp" "mp \<le> 11"
    using marchMonth_range [of d] by (simp_all add: mp_def)
  have m: "153 * mp \<le> 5 * doy + 2" "5 * doy + 2 < 153 * mp + 153"
    unfolding mp_def marchMonth_def doy_def by (rule div_bounds, simp)+
  have e: "5 * e \<le> 153 * mp + 2" "153 * mp + 2 < 5 * e + 5"
    unfolding e_def by (rule div_bounds, simp)+
  from m e have "1 \<le> doy - e + 1" "doy - e + 1 \<le> 31"
    by linarith+
  then show ?thesis
    by (simp add: dateOf_def doy_def mp_def e_def)
qed

lemma day_from_march:
  "d + 719468 = 365 * marchYear d + marchYear d div 4 - marchYear d div 100 + marchYear d div 400
                + dayOfMarchYear d"
proof -
  define era where "era = (d + 719468) div 146097"
  define yoe where "yoe = yearOfEra d"
  have yoe: "0 \<le> yoe" "yoe \<le> 399"
    using yearOfEra_range [of d] by (simp_all add: yoe_def)
  have z: "d + 719468 = 146097 * era + dayOfEra d"
    by (simp add: era_def dayOfEra_def)
  have doe: "dayOfEra d = dayOfMarchYear d + (365 * yoe + yoe div 4 - yoe div 100)"
    by (simp add: dayOfMarchYear_def Let_def yoe_def)
  have Y: "marchYear d = yoe + 400 * era"
    by (simp add: marchYear_def yoe_def era_def)
  have d4: "(yoe + 400 * era) div 4 = yoe div 4 + 100 * era"
    by simp
  have d100: "(yoe + 400 * era) div 100 = yoe div 100 + 4 * era"
    by simp
  have d400: "(yoe + 400 * era) div 400 = era"
    using yoe by (intro div_unique) simp_all
  show ?thesis
    unfolding Y d4 d100 d400 z doe by simp
qed

lemma civil_months: "12 * yearOf d + monthOf d = 12 * marchYear d + marchMonth d + 2"
  using marchMonth_range [of d]
  by (simp add: yearOf_def monthOf_def marchYear_def Let_def)

lemma civil_inj:
  assumes "yearOf a = yearOf b" "monthOf a = monthOf b" "dateOf a = dateOf b"
  shows "a = b"
proof -
  from assms(1,2) have eq: "12 * marchYear a + marchMonth a = 12 * marchYear b + marchMonth b"
    using civil_months [of a] civil_months [of b] by simp
  with marchMonth_range [of a] marchMonth_range [of b]
  have Y: "marchYear a = marchYear b"
    by linarith
  with eq have mp: "marchMonth a = marchMonth b"
    by simp
  from assms(3) mp have "dayOfMarchYear a = dayOfMarchYear b"
    by (simp add: dateOf_def)
  with Y day_from_march [of a] day_from_march [of b] show ?thesis
    by simp
qed

lemma digitVal_digitChar: "n < 10 \<Longrightarrow> digitVal (digitChar n) = n"
proof -
  assume "n < 10"
  then consider "n = 0" | "n = 1" | "n = 2" | "n = 3" | "n = 4" | "n = 5" | "n = 6" | "n = 7"
    | "n = 8" | "n = 9"
    by atomize_elim presburger
  then show ?thesis
    by cases (simp_all add: digitVal_def digitChar_def)
qed

lemma digitChar_not_minus: "n < 10 \<Longrightarrow> digitChar n \<noteq> CHR ''-''"
proof -
  assume "n < 10"
  then consider "n = 0" | "n = 1" | "n = 2" | "n = 3" | "n = 4" | "n = 5" | "n = 6" | "n = 7"
    | "n = 8" | "n = 9"
    by atomize_elim presburger
  then show ?thesis
    by cases (simp_all add: digitChar_def)
qed

lemma digitChar_0: "digitChar 0 = CHR ''0''"
  by (simp add: digitChar_def)

lemma digitsVal_snoc: "digitsVal (s @ [c]) = 10 * digitsVal s + digitVal c"
  by (simp add: digitsVal_def)

lemma digitsVal_showNat: "digitsVal (showNat n) = n"
proof (induction n rule: showNat.induct)
  case (1 n)
  show ?case
  proof (cases "n < 10")
    case True
    then show ?thesis
      by (simp add: showNat.simps [of n] digitsVal_def digitVal_digitChar)
  next
    case False
    with 1 have "digitsVal (showNat (n div 10)) = n div 10"
      by simp
    with False show ?thesis
      by (simp add: showNat.simps [of n] digitsVal_snoc digitVal_digitChar)
  qed
qed

lemma showNat_no_minus: "CHR ''-'' \<notin> set (showNat n)"
proof (induction n rule: showNat.induct)
  case (1 n)
  show ?case
  proof (cases "n < 10")
    case True
    then show ?thesis
      using digitChar_not_minus [of n] by (auto simp: showNat.simps [of n])
  next
    case False
    with 1 have "CHR ''-'' \<notin> set (showNat (n div 10))"
      by simp
    with False show ?thesis
      using digitChar_not_minus [of "n mod 10"] by (auto simp: showNat.simps [of n])
  qed
qed

lemma digitVal_0: "digitVal CHR ''0'' = 0"
  by (simp add: digitVal_def)

lemma digitsVal_zeros: "digitsVal (replicate k CHR ''0'' @ s) = digitsVal s"
proof -
  have "foldl (\<lambda>a c. 10 * a + digitVal c) 0 (replicate k CHR ''0'') = 0"
    by (induction k) (simp_all add: digitVal_0)
  then show ?thesis
    by (simp add: digitsVal_def)
qed

lemma yearVal_padStart: "yearVal (padStart n CHR ''0'' (showInt y)) = y"
proof (cases "y < 0")
  case True
  define zs where "zs = replicate (n - length (showInt y)) CHR ''0''"
  have str: "padStart n CHR ''0'' (showInt y) = zs @ CHR ''-'' # showNat (nat (- y))"
    using True by (simp add: padStart_def showInt_def zs_def)
  have "\<forall>c \<in> set zs. c \<noteq> CHR ''-''"
    by (simp add: zs_def)
  then have "dropWhile (\<lambda>c. c \<noteq> CHR ''-'') (zs @ CHR ''-'' # showNat (nat (- y))) = CHR ''-'' # showNat (nat (- y))"
    by (simp add: dropWhile_append3)
  with True show ?thesis
    by (simp add: yearVal_def str digitsVal_showNat)
next
  case False
  then have str: "padStart n CHR ''0'' (showInt y) = replicate (n - length (showInt y)) CHR ''0'' @ showNat (nat y)"
    by (simp add: padStart_def showInt_def)
  have "CHR ''-'' \<notin> set (padStart n CHR ''0'' (showInt y))"
    unfolding str using showNat_no_minus by simp
  with False show ?thesis
    by (simp add: yearVal_def) (simp add: str digitsVal_zeros digitsVal_showNat)
qed

lemma two_digits:
  assumes "0 \<le> a" "a < 100"
  shows "padStart 2 CHR ''0'' (showInt a) = [digitChar (nat a div 10), digitChar (nat a mod 10)]"
proof -
  define n where "n = nat a"
  from assms have str: "showInt a = showNat n"
    by (simp add: showInt_def n_def)
  show ?thesis
  proof (cases "n < 10")
    case True
    then have "showNat n = [digitChar n]"
      by (simp add: showNat.simps [of n])
    with True show ?thesis
      unfolding str n_def [symmetric] by (simp add: padStart_def digitChar_0)
  next
    case False
    moreover from assms have "n div 10 < 10"
      by (simp add: n_def)
    ultimately have "showNat n = [digitChar (n div 10), digitChar (n mod 10)]"
      by (simp add: showNat.simps [of n] showNat.simps [of "n div 10"])
    then show ?thesis
      unfolding str n_def [symmetric] by (simp add: padStart_def)
  qed
qed

lemma two_digits_inj:
  assumes a: "0 \<le> a" "a < 100" and b: "0 \<le> b" "b < 100"
    and eq: "padStart 2 CHR ''0'' (showInt a) = padStart 2 CHR ''0'' (showInt b)"
  shows "a = b"
proof -
  from eq have "digitChar (nat a div 10) = digitChar (nat b div 10)"
    "digitChar (nat a mod 10) = digitChar (nat b mod 10)"
    by (simp_all add: two_digits a b)
  then have "digitVal (digitChar (nat a div 10)) = digitVal (digitChar (nat b div 10))"
    "digitVal (digitChar (nat a mod 10)) = digitVal (digitChar (nat b mod 10))"
    by simp_all
  moreover from a b have "nat a div 10 < 10" "nat b div 10 < 10"
    by simp_all
  ultimately have "nat a div 10 = nat b div 10" "nat a mod 10 = nat b mod 10"
    by (simp_all add: digitVal_digitChar)
  then have "nat a = nat b"
    by (metis div_mult_mod_eq)
  with a b show ?thesis
    by simp
qed

lemma dateKeyOfDay_inj: "inj dateKeyOfDay"
proof (rule injI)
  fix a b assume eq: "dateKeyOfDay a = dateKeyOfDay b"
  define tail where "tail d = ''-'' @ padStart 2 CHR ''0'' (showInt (monthOf d + 1)) @ ''-''
       @ padStart 2 CHR ''0'' (showInt (dateOf d))" for d
  have key: "dateKeyOfDay d = padStart 4 CHR ''0'' (showInt (yearOf d)) @ tail d" for d
    by (simp add: dateKeyOfDay_def tail_def)
  have m: "0 \<le> monthOf d + 1" "monthOf d + 1 < 100" and dd: "0 \<le> dateOf d" "dateOf d < 100" for d
    using monthOf_range [of d] dateOf_range [of d] by simp_all
  have len: "length (tail d) = 6" for d
    by (simp add: tail_def two_digits m dd)
  from eq have "padStart 4 CHR ''0'' (showInt (yearOf a)) = padStart 4 CHR ''0'' (showInt (yearOf b))
      \<and> tail a = tail b"
    unfolding key by (subst (asm) append_eq_append_conv) (simp_all add: len)
  then have y: "padStart 4 CHR ''0'' (showInt (yearOf a)) = padStart 4 CHR ''0'' (showInt (yearOf b))"
    and t: "tail a = tail b"
    by simp_all
  from y have "yearVal (padStart 4 CHR ''0'' (showInt (yearOf a))) = yearVal (padStart 4 CHR ''0'' (showInt (yearOf b)))"
    by simp
  then have year: "yearOf a = yearOf b"
    by (simp only: yearVal_padStart)
  from t have ms: "padStart 2 CHR ''0'' (showInt (monthOf a + 1)) = padStart 2 CHR ''0'' (showInt (monthOf b + 1))"
    and ds: "padStart 2 CHR ''0'' (showInt (dateOf a)) = padStart 2 CHR ''0'' (showInt (dateOf b))"
    by (simp_all add: tail_def two_digits m dd)
  have "monthOf a + 1 = monthOf b + 1"
    using m m ms by (rule two_digits_inj)
  then have month: "monthOf a = monthOf b"
    by simp
  have date: "dateOf a = dateOf b"
    using dd dd ds by (rule two_digits_inj)
  from year month date show "a = b"
    by (rule civil_inj)
qed

subsection \<open>Arithmetic of instants\<close>

lemma dayOf_midnight: "dayOf (midnight d) = d"
  by (simp add: dayOf_def midnight_def MILLISECONDS_A_DAY_def)

lemma dayOf_plus_days: "dayOf (t + n * MILLISECONDS_A_DAY) = dayOf t + n"
  by (simp add: dayOf_def MILLISECONDS_A_DAY_def)

lemma dayOf_plus_weeks: "dayOf (t + n * MILLISECONDS_A_WEEK) = dayOf t + 7 * n"
proof -
  have "t + n * (7 * MILLISECONDS_A_DAY) = t + (7 * n) * MILLISECONDS_A_DAY"
    by simp
  then show ?thesis
    unfolding MILLISECONDS_A_WEEK_def by (simp only: dayOf_plus_days)
qed

lemma dayOf_addDays: "staysInDay zone \<Longrightarrow> dayOf (addDays zone n t) = dayOf t + n"
  by (simp add: staysInDay_def addDays_def dayOf_plus_days)

lemma dayOf_addWeeks: "staysInDay zone \<Longrightarrow> dayOf (addWeeks zone n t) = dayOf t + 7 * n"
  by (simp add: staysInDay_def addWeeks_def dayOf_plus_weeks)

lemma dayOf_subtractWeeks: "staysInDay zone \<Longrightarrow> dayOf (subtractWeeks zone n t) = dayOf t - 7 * n"
  by (simp add: subtractWeeks_def dayOf_addWeeks)

lemma dayOf_startOf_week:
  "staysInDay zone \<Longrightarrow> dayOf (startOf_week zone t) = dayOf t - weekdayOf (dayOf t)"
  by (simp add: staysInDay_def startOf_week_def dayOf_midnight)

lemma instant_split:
  obtains r where "t = midnight (dayOf t) + r" "0 \<le> r" "r < MILLISECONDS_A_DAY"
proof
  show "t = midnight (dayOf t) + t mod MILLISECONDS_A_DAY"
    by (simp add: midnight_def dayOf_def)
  show "0 \<le> t mod MILLISECONDS_A_DAY" "t mod MILLISECONDS_A_DAY < MILLISECONDS_A_DAY"
    by (simp_all add: MILLISECONDS_A_DAY_def)
qed

lemma week_positive: "0 < MILLISECONDS_A_WEEK" "0 < MILLISECONDS_A_DAY"
  by (simp_all add: MILLISECONDS_A_WEEK_def MILLISECONDS_A_DAY_def)

lemma diffWeeks_ge_iff:
  assumes "1 \<le> N"
  shows "(N \<le> diffWeeks a b) = (N * MILLISECONDS_A_WEEK \<le> a - b)"
proof (cases "a - b < 0")
  case True
  have "0 \<le> (- (a - b)) div 604800000"
    using True by (simp add: pos_imp_zdiv_nonneg_iff)
  with True have "diffWeeks a b \<le> 0"
    by (simp add: diffWeeks_def Let_def MILLISECONDS_A_WEEK_def MILLISECONDS_A_DAY_def)
  with True assms show ?thesis
    by (simp add: MILLISECONDS_A_WEEK_def MILLISECONDS_A_DAY_def)
next
  case False
  then have d: "diffWeeks a b = (a - b) div 604800000"
    by (simp add: diffWeeks_def Let_def MILLISECONDS_A_WEEK_def MILLISECONDS_A_DAY_def)
  have "604800000 * ((a - b) div 604800000) \<le> a - b"
    "a - b < 604800000 * ((a - b) div 604800000) + 604800000"
    by (rule div_bounds, simp)+
  then show ?thesis
    unfolding d MILLISECONDS_A_WEEK_def MILLISECONDS_A_DAY_def by linarith
qed

text \<open>
  The test \<^verbatim>\<open>endDate.diff(startDate, "weeks") >= totalWeeks\<close> in terms of the days and
  the times of day of the two instants.
\<close>

lemma weeks_apart:
  fixes a b :: instant and N :: int
  defines "k \<equiv> dayOf a - dayOf b"
  shows "7 * N + 1 \<le> k \<Longrightarrow> N * MILLISECONDS_A_WEEK \<le> a - b"
    and "k \<le> 7 * N - 1 \<Longrightarrow> \<not> N * MILLISECONDS_A_WEEK \<le> a - b"
    and "k = 7 * N \<Longrightarrow> (N * MILLISECONDS_A_WEEK \<le> a - b)
           = (b mod MILLISECONDS_A_DAY \<le> a mod MILLISECONDS_A_DAY)"
proof -
  have a: "a = 86400000 * dayOf a + a mod 86400000" and b: "b = 86400000 * dayOf b + b mod 86400000"
    by (simp_all add: dayOf_def MILLISECONDS_A_DAY_def)
  have ra: "0 \<le> a mod 86400000" "a mod 86400000 < 86400000"
    and rb: "0 \<le> b mod 86400000" "b mod 86400000 < 86400000"
    by simp_all
  show "7 * N + 1 \<le> k \<Longrightarrow> N * MILLISECONDS_A_WEEK \<le> a - b"
    unfolding k_def MILLISECONDS_A_WEEK_def MILLISECONDS_A_DAY_def using a b ra rb by linarith
  show "k \<le> 7 * N - 1 \<Longrightarrow> \<not> N * MILLISECONDS_A_WEEK \<le> a - b"
    unfolding k_def MILLISECONDS_A_WEEK_def MILLISECONDS_A_DAY_def using a b ra rb by linarith
  show "k = 7 * N \<Longrightarrow> (N * MILLISECONDS_A_WEEK \<le> a - b)
           = (b mod MILLISECONDS_A_DAY \<le> a mod MILLISECONDS_A_DAY)"
    unfolding k_def MILLISECONDS_A_WEEK_def MILLISECONDS_A_DAY_def using a b ra rb by linarith
qed

lemma weekPosition_range: "0 \<le> weekPosition s d \<and> weekPosition s d \<le> 6"
  by (simp add: weekPosition_def)

lemma weekdayOf_range: "0 \<le> weekdayOf d \<and> weekdayOf d \<le> 6"
  by (simp add: weekdayOf_def)

lemma weekPosition_cases:
  assumes "0 \<le> s" "s \<le> 6"
  shows "(s \<le> weekdayOf d \<longrightarrow> weekPosition s d = weekdayOf d - s)
       \<and> (weekdayOf d < s \<longrightarrow> weekPosition s d = weekdayOf d - s + 7)"
  using assms weekdayOf_range [of d] by (auto simp: weekPosition_def) presburger+

text \<open>
  The day on which the window starts. The unadjusted start lies \<open>totalWeeks\<close> weeks before
  the Sunday of the end date's week, moved on by the start of the week; a week is added when
  the end date is at least \<open>totalWeeks\<close> weeks after it. When the end date falls on the
  configured start of the week, this depends on the times of day.
\<close>

lemma calendarStartDate_day:
  fixes now :: instant and offset :: int and zone :: zone and s :: int and totalWeeks :: nat
  assumes zone: "staysInDay zone" and s: "0 \<le> s" "s \<le> 6" and N: "0 < totalWeeks"
  defines "E \<equiv> dayOf now - 7 * offset"
  defines "endDate \<equiv> subtractWeeks zone offset now"
  defines "start0 \<equiv> addDays zone s (subtractWeeks zone (int totalWeeks) (startOf_week zone endDate))"
  defines "S \<equiv> calendarStartDate zone s offset totalWeeks now"
  shows "dayOf S = E - weekPosition s E - 7 * (int totalWeeks - 1)
         \<or> (weekdayOf E = s \<and> endDate mod MILLISECONDS_A_DAY < start0 mod MILLISECONDS_A_DAY
            \<and> S = start0 \<and> dayOf S = E - 7 * int totalWeeks)"
    and "weekdayOf E = s \<longrightarrow> start0 mod MILLISECONDS_A_DAY \<le> endDate mod MILLISECONDS_A_DAY
         \<Longrightarrow> dayOf S = E - weekPosition s E - 7 * (int totalWeeks - 1)"
proof -
  define w where "w = weekdayOf E"
  define n where "n = int totalWeeks"
  have n: "1 \<le> n"
    using N by (simp add: n_def)
  have w: "0 \<le> w" "w \<le> 6"
    using weekdayOf_range [of E] by (simp_all add: w_def)
  have dayE: "dayOf endDate = E"
    using zone by (simp add: endDate_def E_def dayOf_subtractWeeks)
  have day0: "dayOf start0 = E - w - 7 * n + s"
    using zone by (simp add: start0_def dayOf_addDays dayOf_subtractWeeks dayOf_startOf_week dayE
        w_def n_def)
  have k: "dayOf endDate - dayOf start0 = 7 * n + (w - s)"
    by (simp add: dayE day0)
  have S: "S = (if n * MILLISECONDS_A_WEEK \<le> endDate - start0 then addWeeks zone 1 start0 else start0)"
    using diffWeeks_ge_iff [OF n, of endDate start0]
    by (simp add: S_def calendarStartDate_def Let_def endDate_def start0_def n_def)
  have added: "dayOf S = E - weekPosition s E - 7 * (n - 1)"
    if "n * MILLISECONDS_A_WEEK \<le> endDate - start0"
  proof -
    from that k have "s \<le> w"
      using weeks_apart(2) [of endDate start0 n] by force
    then have "weekPosition s E = w - s"
      using weekPosition_cases [OF s, of E] by (simp add: w_def)
    moreover from that have "dayOf S = dayOf start0 + 7"
      using zone by (simp add: S dayOf_addWeeks)
    ultimately show ?thesis
      by (simp add: day0)
  qed
  have kept: "(w < s \<and> dayOf S = E - weekPosition s E - 7 * (n - 1))
      \<or> (w = s \<and> endDate mod MILLISECONDS_A_DAY < start0 mod MILLISECONDS_A_DAY
          \<and> S = start0 \<and> dayOf S = E - 7 * n)"
    if not: "\<not> n * MILLISECONDS_A_WEEK \<le> endDate - start0"
  proof -
    from not have S0: "S = start0"
      by (simp add: S)
    from not k have ws: "w \<le> s"
      using weeks_apart(1) [of n endDate start0] by force
    show ?thesis
    proof (cases "w = s")
      case True
      with k not have "endDate mod MILLISECONDS_A_DAY < start0 mod MILLISECONDS_A_DAY"
        using weeks_apart(3) [of endDate start0 n] by simp
      with True S0 day0 show ?thesis
        by simp
    next
      case False
      with ws have "w < s"
        by simp
      then have "weekPosition s E = w - s + 7"
        using weekPosition_cases [OF s, of E] by (simp add: w_def)
      with \<open>w < s\<close> S0 day0 show ?thesis
        by simp
    qed
  qed
  show "dayOf S = E - weekPosition s E - 7 * (int totalWeeks - 1)
         \<or> (weekdayOf E = s \<and> endDate mod MILLISECONDS_A_DAY < start0 mod MILLISECONDS_A_DAY
            \<and> S = start0 \<and> dayOf S = E - 7 * int totalWeeks)"
    using added kept unfolding n_def [symmetric] w_def [symmetric] by blast
  show "dayOf S = E - weekPosition s E - 7 * (int totalWeeks - 1)"
    if "weekdayOf E = s \<longrightarrow> start0 mod MILLISECONDS_A_DAY \<le> endDate mod MILLISECONDS_A_DAY"
    using added kept that unfolding n_def [symmetric] w_def [symmetric] by fastforce
qed

subsection \<open>The loops of the window\<close>

lemma getDateKey_eq_iff: "(getDateKey a = getDateKey b) = (dayOf a = dayOf b)"
  using dateKeyOfDay_inj by (auto simp: getDateKey_def dest: injD)

lemma dateKeyOfDay_eq_iff: "(dateKeyOfDay a = dateKeyOfDay b) = (a = b)"
  using dateKeyOfDay_inj by (auto dest: injD)

lemma weekSpan_length: "length (weekSpan entries sd w n) = n"
  by (simp add: weekSpan_def)

lemma weekSpan_nth: "d < n \<Longrightarrow> weekSpan entries sd w n ! d = valueOfDay entries (sd + int (w * 7 + d))"
  by (simp add: weekSpan_def)

lemma weekSpan_shift: "weekSpan entries (sd + 7) w n = weekSpan entries sd (Suc w) n"
  by (simp add: weekSpan_def algebra_simps)

text \<open>
  The inner loop, when today is not among the next \<open>n\<close> days, and when today is the
  \<open>j\<close>-th of them.
\<close>

lemma weekValuesLoop_no_break:
  assumes "staysInDay zone" and "\<forall>i<n. dayOf date + int i \<noteq> today"
  shows "fst (weekValuesLoop zone entries (dateKeyOfDay today) n date vals)
         = vals @ map (\<lambda>i. valueOfDay entries (dayOf date + int i)) [0..<n]
       \<and> dayOf (snd (weekValuesLoop zone entries (dateKeyOfDay today) n date vals))
         = dayOf date + int n"
  using assms(2)
proof (induction n arbitrary: date vals)
  case 0
  then show ?case by simp
next
  case (Suc n)
  from Suc.prems have first: "dayOf date \<noteq> today"
    by force
  have next_day: "dayOf (addDays zone 1 date) = dayOf date + 1"
    using assms(1) by (simp add: dayOf_addDays)
  have "\<forall>i<n. dayOf (addDays zone 1 date) + int i \<noteq> today"
  proof (intro allI impI)
    fix i assume "i < n"
    then have "Suc i < Suc n"
      by simp
    with Suc.prems have "dayOf date + int (Suc i) \<noteq> today"
      by blast
    then show "dayOf (addDays zone 1 date) + int i \<noteq> today"
      by (simp add: next_day)
  qed
  from Suc.IH [OF this, of "vals @ [valueOfDay entries (dayOf date)]"] first show ?case
    by (simp add: Let_def getDateKey_def dateKeyOfDay_eq_iff valueOfDay_def next_day map_upt_Suc
        add.assoc del: upt_Suc)
qed

lemma weekValuesLoop_break:
  assumes "staysInDay zone" and "j < n" and "dayOf date + int j = today"
  shows "fst (weekValuesLoop zone entries (dateKeyOfDay today) n date vals)
         = vals @ map (\<lambda>i. valueOfDay entries (dayOf date + int i)) [0..<Suc j]"
  using assms(2,3)
proof (induction n arbitrary: j date vals)
  case 0
  then show ?case by simp
next
  case (Suc n)
  have next_day: "dayOf (addDays zone 1 date) = dayOf date + 1"
    using assms(1) by (simp add: dayOf_addDays)
  show ?case
  proof (cases j)
    case 0
    with Suc.prems show ?thesis
      by (simp add: Let_def getDateKey_def valueOfDay_def)
  next
    case (Suc j')
    with Suc.prems have first: "dayOf date \<noteq> today" and "j' < n"
      and hit: "dayOf (addDays zone 1 date) + int j' = today"
      by (simp_all add: next_day)
    from Suc.IH [OF this(2) hit, of "vals @ [valueOfDay entries (dayOf date)]"] first Suc
    show ?thesis
      by (simp add: Let_def getDateKey_def dateKeyOfDay_eq_iff valueOfDay_def next_day
          map_upt_Suc [of _ "Suc j'"] add.assoc del: upt_Suc)
  qed
qed

lemma weeksLoop_full:
  assumes "staysInDay zone" and "\<forall>i<7 * m. dayOf date + int i \<noteq> today"
  shows "weeksLoop zone entries (dateKeyOfDay today) m date weeks
         = weeks @ map (\<lambda>w. weekSpan entries (dayOf date) w 7) [0..<m]"
  using assms(2)
proof (induction m arbitrary: date weeks)
  case 0
  then show ?case by simp
next
  case (Suc m)
  define r where "r = weekValuesLoop zone entries (dateKeyOfDay today) 7 date []"
  from Suc.prems have "\<forall>i<7. dayOf date + int i \<noteq> today"
    by simp
  from weekValuesLoop_no_break [OF assms(1) this, of entries "[]"]
  have r: "fst r = weekSpan entries (dayOf date) 0 7" "dayOf (snd r) = dayOf date + 7"
    by (simp_all add: r_def weekSpan_def)
  have "\<forall>i<7 * m. dayOf (snd r) + int i \<noteq> today"
  proof (intro allI impI)
    fix i assume "i < 7 * m"
    then have "i + 7 < 7 * Suc m"
      by simp
    with Suc.prems have "dayOf date + int (i + 7) \<noteq> today"
      by blast
    then show "dayOf (snd r) + int i \<noteq> today"
      by (simp add: r)
  qed
  from Suc.IH [OF this, of "weeks @ [fst r]"] show ?case
    by (simp add: r_def [symmetric] split_beta r map_upt_Suc weekSpan_shift del: upt_Suc)
qed

lemma weeksLoop_last:
  assumes "staysInDay zone" and "j < 7" and "dayOf date + int (7 * m + j) = today"
  shows "weeksLoop zone entries (dateKeyOfDay today) (Suc m) date weeks
         = weeks @ map (\<lambda>w. weekSpan entries (dayOf date) w 7) [0..<m]
           @ [weekSpan entries (dayOf date) m (Suc j)]"
  using assms(3)
proof (induction m arbitrary: date weeks)
  case 0
  then have "dayOf date + int j = today"
    by simp
  from weekValuesLoop_break [OF assms(1,2) this, of entries "[]"] show ?case
    by (simp add: split_beta weekSpan_def)
next
  case (Suc m)
  define r where "r = weekValuesLoop zone entries (dateKeyOfDay today) 7 date []"
  from Suc.prems assms(2) have "\<forall>i<7. dayOf date + int i \<noteq> today"
    by auto
  from weekValuesLoop_no_break [OF assms(1) this, of entries "[]"]
  have r: "fst r = weekSpan entries (dayOf date) 0 7" "dayOf (snd r) = dayOf date + 7"
    by (simp_all add: r_def weekSpan_def)
  from Suc.prems have "dayOf (snd r) + int (7 * m + j) = today"
    by (simp add: r)
  from Suc.IH [OF this, of "weeks @ [fst r]"]
  have "weeksLoop zone entries (dateKeyOfDay today) (Suc m) (snd r) (weeks @ [fst r])
      = weeks @ map (\<lambda>w. weekSpan entries (dayOf date) w 7) [0..<Suc m]
        @ [weekSpan entries (dayOf date) (Suc m) (Suc j)]"
    by (simp add: r map_upt_Suc weekSpan_shift del: upt_Suc weeksLoop.simps)
  moreover have "weeksLoop zone entries (dateKeyOfDay today) (Suc (Suc m)) date weeks
      = weeksLoop zone entries (dateKeyOfDay today) (Suc m) (snd r) (weeks @ [fst r])"
    by (simp add: r_def split_beta del: weeksLoop.simps(2) add: weeksLoop.simps(2) [of _ _ _ "Suc m"])
  ultimately show ?case
    by simp
qed

subsection \<open>The window\<close>

lemma dayOf_indexesToDate:
  "staysInDay zone \<Longrightarrow>
   dayOf (indexesToDate zone data w d) = dayOf (cd_startDate data) + 7 * int w + int d"
  by (simp add: indexesToDate_def dayOf_addDays)

lemma valueOfDay_selectDate:
  "staysInDay zone \<Longrightarrow>
   valueOfDay (habit_entries habit) (dayOf (cd_startDate data) + int (w * 7 + d))
   = entryValue (habit_entries habit) (selectDate zone data w d)"
  by (simp add: valueOfDay_def selectDate_def getDateKey_def dayOf_indexesToDate algebra_simps)

lemma dateKeyOfDay_nonempty: "dateKeyOfDay d \<noteq> []"
  by (simp add: dateKeyOfDay_def)

lemma getDateKey_nonempty: "getDateKey t \<noteq> []"
  by (simp add: getDateKey_def dateKeyOfDay_nonempty)

lemma renderCells_nth:
  assumes "w < length (cd_weeks data)" "d < length (cd_weeks data ! w)"
  shows "renderCells zone data ! w ! d = renderCell zone data w d (cd_weeks data ! w ! d)"
  using assms by (simp add: renderCells_def nth_enumerate_eq)

text \<open>
  The two shapes of the window: today is in the last column, at its position in the configured
  week, and the column ends there; or today comes after the last day of the window and every
  column is full. The second is the shape of every earlier page.
\<close>

lemma calendarData_weeks:
  fixes now :: instant and offset :: int and zone :: zone and s :: int and totalWeeks :: nat
    and habit :: Habit
  assumes zone: "staysInDay zone" and s: "0 \<le> s" "s \<le> 6" and N: "0 < totalWeeks"
    and offset: "0 \<le> offset"
  defines "data \<equiv> calendarData zone habit s offset totalWeeks now"
  defines "sd \<equiv> dayOf (cd_startDate data)"
  defines "entries \<equiv> habit_entries habit"
  shows "(offset = 0
          \<and> sd + 7 * int (totalWeeks - 1) + weekPosition s (dayOf now) = dayOf now
          \<and> cd_weeks data = map (\<lambda>w. weekSpan entries sd w 7) [0..<totalWeeks - 1]
                @ [weekSpan entries sd (totalWeeks - 1) (Suc (nat (weekPosition s (dayOf now))))])
       \<or> (sd + 7 * int totalWeeks \<le> dayOf now
          \<and> cd_weeks data = map (\<lambda>w. weekSpan entries sd w 7) [0..<totalWeeks])"
proof -
  define E where "E = dayOf now - 7 * offset"
  define S where "S = calendarStartDate zone s offset totalWeeks now"
  from N obtain m where m: "totalWeeks = Suc m"
    by (cases totalWeeks) simp_all
  have start: "cd_startDate data = S"
    by (simp add: data_def calendarData_def Let_def S_def)
  have weeks: "cd_weeks data = weeksLoop zone entries (dateKeyOfDay (dayOf now)) totalWeeks S []"
    by (simp add: data_def calendarData_def Let_def S_def entries_def getDateKey_def)
  have sd: "sd = dayOf S"
    by (simp add: sd_def start)
  have pos: "0 \<le> weekPosition s E" "weekPosition s E \<le> 6"
    using weekPosition_range [of s E] by simp_all
  have full: "cd_weeks data = map (\<lambda>w. weekSpan entries sd w 7) [0..<totalWeeks]"
    if "sd + 7 * int totalWeeks \<le> dayOf now"
  proof -
    from that have "\<forall>i<7 * totalWeeks. dayOf S + int i \<noteq> dayOf now"
      by (auto simp: sd)
    from weeksLoop_full [OF zone this, of entries "[]"] show ?thesis
      by (simp add: weeks sd)
  qed
  from calendarStartDate_day(1) [OF zone s N, where offset = offset and now = now]
  consider (aligned) "dayOf S = E - weekPosition s E - 7 * (int totalWeeks - 1)"
    | (early) "dayOf S = E - 7 * int totalWeeks"
    by (auto simp: S_def E_def)
  then show ?thesis
  proof cases
    case aligned
    show ?thesis
    proof (cases "offset = 0")
      case True
      define j where "j = nat (weekPosition s (dayOf now))"
      from pos True have j: "int j = weekPosition s (dayOf now)" "j < 7"
        by (simp_all add: j_def E_def)
      from aligned True j have today: "dayOf S + int (7 * m + j) = dayOf now"
        by (simp add: E_def m)
      from weeksLoop_last [OF zone j(2) today, of entries "[]"]
      have "cd_weeks data = map (\<lambda>w. weekSpan entries sd w 7) [0..<m]
                @ [weekSpan entries sd m (Suc j)]"
        by (simp add: weeks sd m)
      moreover from today j have "sd + 7 * int m + weekPosition s (dayOf now) = dayOf now"
        by (simp add: sd)
      ultimately show ?thesis
        using True by (simp add: m j_def)
    next
      case False
      with offset have "1 \<le> offset"
        by simp
      with aligned pos have "sd + 7 * int totalWeeks \<le> dayOf now"
        by (simp add: sd E_def)
      with full show ?thesis
        by simp
    qed
  next
    case early
    with offset have "sd + 7 * int totalWeeks \<le> dayOf now"
      by (simp add: sd E_def)
    with full show ?thesis
      by simp
  qed
qed

lemma cell_value:
  fixes now :: instant and offset :: int and zone :: zone and s :: int and totalWeeks :: nat
    and habit :: Habit
  assumes zone: "staysInDay zone" and s: "0 \<le> s" "s \<le> 6" and N: "0 < totalWeeks"
    and offset: "0 \<le> offset"
  defines "data \<equiv> calendarData zone habit s offset totalWeeks now"
  assumes w: "w < length (cd_weeks data)" and d: "d < length (cd_weeks data ! w)"
  shows "cd_weeks data ! w ! d = entryValue (habit_entries habit) (selectDate zone data w d)"
proof -
  define sd where "sd = dayOf (cd_startDate data)"
  have "\<exists>n. cd_weeks data ! w = weekSpan (habit_entries habit) sd w n"
    using calendarData_weeks [OF zone s N offset, of habit now] w
    unfolding data_def [symmetric] sd_def [symmetric]
    by (elim disjE conjE) (auto simp: nth_append less_Suc_eq)
  then obtain n where n: "cd_weeks data ! w = weekSpan (habit_entries habit) sd w n"
    by blast
  with d have "d < n"
    by (simp add: weekSpan_length)
  then have "cd_weeks data ! w ! d = valueOfDay (habit_entries habit) (sd + int (w * 7 + d))"
    by (simp add: n weekSpan_nth)
  also have "\<dots> = entryValue (habit_entries habit) (selectDate zone data w d)"
    unfolding sd_def using zone by (rule valueOfDay_selectDate)
  finally show ?thesis .
qed

lemma staysInDay_noClockChange: "staysInDay noClockChange"
  by (simp add: staysInDay_def noClockChange_def)

lemma midnightsExist_noClockChange: "midnightsExist noClockChange"
  by (simp add: midnightsExist_def noClockChange_def)

lemma staysInDay_santiago2024: "staysInDay santiago2024"
proof -
  have "dayOf (t + 3600000) = dayOf t"
    if "midnight 19974 \<le> t" "t < midnight 19974 + 3600000" for t
  proof -
    from that have "MILLISECONDS_A_DAY * 19974 \<le> t" "t < MILLISECONDS_A_DAY * 19974 + MILLISECONDS_A_DAY"
      "MILLISECONDS_A_DAY * 19974 \<le> t + 3600000"
      "t + 3600000 < MILLISECONDS_A_DAY * 19974 + MILLISECONDS_A_DAY"
      by (simp_all add: midnight_def MILLISECONDS_A_DAY_def)
    then have "t div MILLISECONDS_A_DAY = 19974" "(t + 3600000) div MILLISECONDS_A_DAY = 19974"
      by (simp_all add: div_unique week_positive)
    then show ?thesis
      by (simp add: dayOf_def)
  qed
  then show ?thesis
    by (simp add: staysInDay_def santiago2024_def)
qed

lemma midnight_skipped: "\<not> midnightsExist santiago2024"
proof -
  have "santiago2024 (midnight 19974) \<noteq> midnight 19974"
    by (simp add: santiago2024_def)
  then show ?thesis
    unfolding midnightsExist_def by blast
qed

text \<open>
  Where no midnight is skipped the first day of the window is a midnight, and the window is
  aligned with the current week.
\<close>

lemma calendarStartDate_aligned:
  assumes zone: "staysInDay zone" "midnightsExist zone" and s: "0 \<le> s" "s \<le> 6"
    and N: "0 < totalWeeks"
  shows "dayOf (calendarStartDate zone s offset totalWeeks now)
         = dayOf now - 7 * offset - weekPosition s (dayOf now - 7 * offset) - 7 * (int totalWeeks - 1)"
proof -
  define endDate where "endDate = subtractWeeks zone offset now"
  define d0 where "d0 = dayOf endDate - weekdayOf (dayOf endDate)"
  have m: "zone (midnight d) = midnight d" for d
    using zone(2) by (simp add: midnightsExist_def)
  have "startOf_week zone endDate = midnight d0"
    by (simp add: startOf_week_def m d0_def)
  moreover have "subtractWeeks zone (int totalWeeks) (midnight d0) = midnight (d0 - 7 * int totalWeeks)"
  proof -
    have "midnight d0 + - int totalWeeks * MILLISECONDS_A_WEEK = midnight (d0 - 7 * int totalWeeks)"
      by (simp add: midnight_def MILLISECONDS_A_WEEK_def algebra_simps)
    then show ?thesis
      by (simp only: subtractWeeks_def addWeeks_def m)
  qed
  moreover have "addDays zone s (midnight (d0 - 7 * int totalWeeks)) = midnight (d0 - 7 * int totalWeeks + s)"
  proof -
    have "midnight (d0 - 7 * int totalWeeks) + s * MILLISECONDS_A_DAY = midnight (d0 - 7 * int totalWeeks + s)"
      by (simp add: midnight_def algebra_simps)
    then show ?thesis
      by (simp only: addDays_def m)
  qed
  ultimately have "addDays zone s (subtractWeeks zone (int totalWeeks) (startOf_week zone endDate))
      = midnight (d0 - 7 * int totalWeeks + s)"
    by simp
  then have "addDays zone s (subtractWeeks zone (int totalWeeks) (startOf_week zone endDate))
      mod MILLISECONDS_A_DAY = 0"
    by (simp add: midnight_def)
  moreover have "0 \<le> endDate mod MILLISECONDS_A_DAY"
    using week_positive(2) by simp
  ultimately show ?thesis
    using calendarStartDate_day(2) [OF zone(1) s N, where offset = offset and now = now]
    by (simp add: endDate_def)
qed

text \<open>
  The window of the current page in a zone in which no midnight is skipped: one column per
  week, full columns before the last, and the last column ends with today, at today's position
  in the configured week; every populated cell is a day not after today, with the value of the
  habit's entry for that day.
\<close>

lemma windowing_where_midnights_exist:
  fixes habit :: Habit and now :: instant and zone :: zone
  assumes "staysInDay zone" and "midnightsExist zone"
    and "0 \<le> s" and "s \<le> 6" and "0 < totalWeeks"
  defines "data \<equiv> calendarData zone habit s 0 totalWeeks now"
    and "pos \<equiv> nat (weekPosition s (dayOf now))"
  shows "length (cd_weeks data) = totalWeeks
    \<and> (\<forall>w. w < totalWeeks - 1 \<longrightarrow> length (cd_weeks data ! w) = 7)
    \<and> length (last (cd_weeks data)) = pos + 1
    \<and> (pos < 6 \<longrightarrow> length (last (cd_weeks data)) < 7)
    \<and> dayOf (indexesToDate zone data (totalWeeks - 1) pos) = dayOf now
    \<and> (\<forall>w d. w < length (cd_weeks data) \<and> d < length (cd_weeks data ! w) \<longrightarrow>
          dayOf (indexesToDate zone data w d) \<le> dayOf now
          \<and> cd_weeks data ! w ! d = entryValue (habit_entries habit) (selectDate zone data w d))"
proof -
  define sd where "sd = dayOf (cd_startDate data)"
  define m where "m = totalWeeks - 1"
  define full where "full = map (\<lambda>w. weekSpan (habit_entries habit) sd w 7) [0..<m]"
  define part where "part = weekSpan (habit_entries habit) sd m (Suc pos)"
  from assms(5) have m: "totalWeeks = Suc m"
    by (simp add: m_def)
  have pos: "int pos = weekPosition s (dayOf now)" "pos < 7"
    using weekPosition_range [of s "dayOf now"] by (simp_all add: pos_def) linarith
  have start: "sd = dayOf now - weekPosition s (dayOf now) - 7 * int m"
    using calendarStartDate_aligned [OF assms(1-5), of 0 now]
    by (simp add: sd_def data_def calendarData_def Let_def m)
  with pos have "\<not> sd + 7 * int totalWeeks \<le> dayOf now"
    by (simp add: m)
  with calendarData_weeks [OF assms(1,3,4,5), of 0 habit now]
  have weeks: "cd_weeks data = full @ [part]"
    by (simp add: data_def [symmetric] sd_def [symmetric] full_def part_def m_def pos_def)
  have len_full: "length full = m"
    by (simp add: full_def)
  have len: "length (cd_weeks data) = totalWeeks"
    by (simp add: weeks len_full m)
  have full_nth: "cd_weeks data ! w = weekSpan (habit_entries habit) sd w 7" if "w < m" for w
    using that by (simp add: weeks nth_append len_full) (simp add: full_def)
  have last_nth: "cd_weeks data ! m = part"
    by (simp add: weeks nth_append len_full)
  have full_len: "\<forall>w. w < totalWeeks - 1 \<longrightarrow> length (cd_weeks data ! w) = 7"
    by (simp add: m full_nth weekSpan_length)
  have last_len: "length (last (cd_weeks data)) = pos + 1"
    by (simp add: weeks part_def weekSpan_length)
  have day: "dayOf (indexesToDate zone data w d) = sd + 7 * int w + int d" for w d
    using dayOf_indexesToDate [OF assms(1), of data w d] by (simp add: sd_def)
  have today: "dayOf (indexesToDate zone data (totalWeeks - 1) pos) = dayOf now"
    by (simp add: day m start pos)
  have cells: "dayOf (indexesToDate zone data w d) \<le> dayOf now
      \<and> cd_weeks data ! w ! d = entryValue (habit_entries habit) (selectDate zone data w d)"
    if w: "w < length (cd_weeks data)" and d: "d < length (cd_weeks data ! w)" for w d
  proof -
    have "sd + 7 * int w + int d \<le> dayOf now"
    proof (cases "w < m")
      case True
      with d have "d < 7"
        by (simp add: full_nth weekSpan_length)
      with True pos show ?thesis
        by (simp add: start)
    next
      case False
      with w have wm: "w = m"
        by (simp add: len m)
      with d have "d < Suc pos"
        by (simp add: last_nth part_def weekSpan_length)
      with pos show ?thesis
        by (simp add: start wm)
    qed
    moreover have "cd_weeks data ! w ! d = entryValue (habit_entries habit) (selectDate zone data w d)"
      using assms(1,3,4,5) _ w [unfolded data_def] d [unfolded data_def] unfolding data_def
      by (rule cell_value) simp
    ultimately show ?thesis
      by (simp add: day)
  qed
  from len full_len last_len today cells show ?thesis
    by simp
qed

lemmas civil_defs = yearOf_def monthOf_def dateOf_def marchMonth_def dayOfMarchYear_def
  yearOfEra_def dayOfEra_def Let_def

lemma entryValue_missing: "entries k = None \<Longrightarrow> entryValue entries k = 0"
  by (simp add: entryValue_def)

lemma cellTint_zero: "cellTint 0 = Inactive"
  by (simp add: cellTint_def truthy_def)

text \<open>
  C9. A date key with no entry in the habit's entries reads as the value 0 at every read
  site: the value is 0, its cell has the inactive tint, and the dialog opened for the key is
  given the value 0. In particular every populated cell of the window (for every offset that
  is not negative) whose date has no entry shows the value 0 with the inactive tint, and a
  click on it opens the dialog with the value 0.
\<close>

theorem missing_entry_defaults:
  fixes habit :: Habit and now :: instant and zone :: zone
  assumes "staysInDay zone"
    and "0 \<le> s" and "s \<le> 6" and "0 < totalWeeks" and "0 \<le> offset"
  defines "data \<equiv> calendarData zone habit s offset totalWeeks now"
  assumes "w < length (cd_weeks data)" and "d < length (cd_weeks data ! w)"
    and "habit_entries habit (selectDate zone data w d) = None"
  shows "(\<forall>k. habit_entries habit k = None \<longrightarrow>
            entryValue (habit_entries habit) k = 0
            \<and> cellTint (entryValue (habit_entries habit) k) = Inactive
            \<and> (k \<noteq> [] \<longrightarrow> map_option mp_value (progressModal habit (Some k)) = Some 0))
    \<and> cd_weeks data ! w ! d = 0
    \<and> cell_value (renderCells zone data ! w ! d) = 0
    \<and> cell_tint (renderCells zone data ! w ! d) = Inactive
    \<and> cell_onClick (renderCells zone data ! w ! d) = selectDate zone data w d
    \<and> map_option mp_value (progressModal habit (Some (cell_onClick (renderCells zone data ! w ! d))))
        = Some 0"
proof -
  have general: "\<forall>k. habit_entries habit k = None \<longrightarrow>
            entryValue (habit_entries habit) k = 0
            \<and> cellTint (entryValue (habit_entries habit) k) = Inactive
            \<and> (k \<noteq> [] \<longrightarrow> map_option mp_value (progressModal habit (Some k)) = Some 0)"
    by (simp add: entryValue_missing cellTint_zero progressModal_def)
  have "cd_weeks data ! w ! d = entryValue (habit_entries habit) (selectDate zone data w d)"
    unfolding data_def using assms(1-5) assms(7,8) [unfolded data_def] by (rule cell_value)
  with assms(9) have zero: "cd_weeks data ! w ! d = 0"
    by (simp add: entryValue_missing)
  have cell: "renderCells zone data ! w ! d = renderCell zone data w d 0"
    using renderCells_nth [OF assms(7,8)] zero by simp
  have key: "selectDate zone data w d \<noteq> []"
    by (simp add: selectDate_def getDateKey_nonempty)
  from general zero cell key assms(9) show ?thesis
    by (simp add: renderCell_def cellTint_zero progressModal_def entryValue_missing)
qed

text \<open>
  The window of 12 weeks that the code computes in America/Santiago on Wednesday 2024-09-11
  at 00:30 with the week starting on Wednesday. The Sunday before is 2024-09-08, the day
  whose first hour was skipped.
\<close>

lemma santiago_now: "dayOf (midnight 19977 + 1800000) = 19977"
  by (simp add: dayOf_def midnight_def MILLISECONDS_A_DAY_def)

lemma santiago_startOf_week:
  "startOf_week santiago2024 (midnight 19977 + 1800000) = midnight 19974 + 3600000"
  by (simp add: startOf_week_def santiago_now weekdayOf_def santiago2024_def)

lemma santiago_start:
  "calendarStartDate santiago2024 3 0 12 (midnight 19977 + 1800000) = midnight 19893 + 3600000"
proof -
  have "subtractWeeks santiago2024 0 (midnight 19977 + 1800000) = midnight 19977 + 1800000"
    by (simp add: subtractWeeks_def addWeeks_def santiago2024_def midnight_def MILLISECONDS_A_DAY_def)
  moreover have "subtractWeeks santiago2024 12 (midnight 19974 + 3600000) = midnight 19890 + 3600000"
    by (simp add: subtractWeeks_def addWeeks_def santiago2024_def midnight_def MILLISECONDS_A_DAY_def
        MILLISECONDS_A_WEEK_def)
  moreover have "addDays santiago2024 3 (midnight 19890 + 3600000) = midnight 19893 + 3600000"
    by (simp add: addDays_def santiago2024_def midnight_def MILLISECONDS_A_DAY_def)
  moreover have "diffWeeks (midnight 19977 + 1800000) (midnight 19893 + 3600000) = 11"
    by (simp add: diffWeeks_def midnight_def MILLISECONDS_A_DAY_def MILLISECONDS_A_WEEK_def)
  ultimately show ?thesis
    by (simp add: calendarStartDate_def santiago_startOf_week)
qed

lemma cd_startDate_calendarData:
  "cd_startDate (calendarData zone habit s offset totalWeeks now)
   = calendarStartDate zone s offset totalWeeks now"
  by (simp add: calendarData_def Let_def)

lemma santiago_start_day: "dayOf (midnight 19893 + 3600000) = 19893"
  by (simp add: dayOf_def midnight_def MILLISECONDS_A_DAY_def)

lemma santiago_weeks:
  "cd_weeks (calendarData santiago2024 habit 3 0 12 (midnight 19977 + 1800000))
   = map (\<lambda>w. weekSpan (habit_entries habit) 19893 w 7) [0..<12]"
proof -
  have "\<forall>i<7 * 12. dayOf (midnight 19893 + 3600000) + int i \<noteq> 19977"
    by (simp add: santiago_start_day)
  from weeksLoop_full [OF staysInDay_santiago2024 this, of "habit_entries habit" "[]"] show ?thesis
    by (simp add: calendarData_def Let_def santiago_start getDateKey_def santiago_now santiago_start_day)
qed

lemma santiago_last_cell:
  "selectDate santiago2024 (calendarData santiago2024 habit 3 0 12 (midnight 19977 + 1800000)) 11 6
   = ''2024-09-10''"
proof -
  have "dayOf (indexesToDate santiago2024
          (calendarData santiago2024 habit 3 0 12 (midnight 19977 + 1800000)) 11 6) = 19976"
    using dayOf_indexesToDate [OF staysInDay_santiago2024,
        of "calendarData santiago2024 habit 3 0 12 (midnight 19977 + 1800000)" 11 6]
    by (simp add: cd_startDate_calendarData santiago_start santiago_start_day)
  moreover have "dateKeyOfDay 19976 = ''2024-09-10''"
    by (simp add: dateKeyOfDay_def civil_defs padStart_def showInt_def showNat.simps digitChar_def)
  ultimately show ?thesis
    by (simp add: selectDate_def getDateKey_def)
qed

theorem missing_entry_defaults_witness:
  "staysInDay santiago2024
   \<and> cell_value (renderCells santiago2024
        (calendarData santiago2024 exampleHabit 3 0 12 (midnight 19977 + 1800000)) ! 11 ! 6) = 0
   \<and> cell_tint (renderCells santiago2024
        (calendarData santiago2024 exampleHabit 3 0 12 (midnight 19977 + 1800000)) ! 11 ! 6) = Inactive
   \<and> cell_onClick (renderCells santiago2024
        (calendarData santiago2024 exampleHabit 3 0 12 (midnight 19977 + 1800000)) ! 11 ! 6)
       = ''2024-09-10''
   \<and> map_option mp_value (progressModal exampleHabit (Some ''2024-09-10'')) = Some 0"
proof -
  define data where "data = calendarData santiago2024 exampleHabit 3 0 12 (midnight 19977 + 1800000)"
  have weeks: "cd_weeks data = map (\<lambda>w. weekSpan (habit_entries exampleHabit) 19893 w 7) [0..<12]"
    unfolding data_def by (rule santiago_weeks)
  have w: "11 < length (cd_weeks data)"
    by (simp add: weeks)
  have d: "6 < length (cd_weeks data ! 11)"
    by (simp add: weeks weekSpan_length)
  have key: "selectDate santiago2024 data 11 6 = ''2024-09-10''"
    unfolding data_def by (rule santiago_last_cell)
  have none: "habit_entries exampleHabit (selectDate santiago2024 data 11 6) = None"
    unfolding key by (simp add: exampleHabit_def)
  from missing_entry_defaults [of santiago2024 3 12 0 11 exampleHabit "midnight 19977 + 1800000" 6]
    staysInDay_santiago2024 w d none key
  show ?thesis
    by (simp add: data_def)
qed

text \<open>
  C1. In America/Santiago on Wednesday 2024-09-11 at 00:30, with the week starting on
  Wednesday (3), 12 weeks and page offset 0: today is at position 0 of the configured week, so
  the last column should hold one value, today's. The start of the dayjs week is asked for as
  2024-09-08 00:00 and is 01:00, the window therefore starts on 2024-06-19 at 01:00, which is
  11 weeks before now and not 12, no week is added, and the window is the 12 full weeks that
  end on 2024-09-10: the last column holds 7 values and today is not in the window.
\<close>

theorem windowing_midnight_gap:
  "dayOf (midnight 19977 + 1800000) = 19977
   \<and> getDateKey (midnight 19977 + 1800000) = ''2024-09-11''
   \<and> weekPosition 3 19977 = 0
   \<and> startOf_week santiago2024 (midnight 19977 + 1800000) = midnight 19974 + 3600000
   \<and> cd_startDate (calendarData santiago2024 exampleHabit 3 0 12 (midnight 19977 + 1800000))
       = midnight 19893 + 3600000
   \<and> diffWeeks (midnight 19977 + 1800000) (midnight 19893 + 3600000) = 11
   \<and> map length (cd_weeks (calendarData santiago2024 exampleHabit 3 0 12 (midnight 19977 + 1800000)))
       = [7, 7, 7, 7, 7, 7, 7, 7, 7, 7, 7, 7]
   \<and> length (last (cd_weeks (calendarData santiago2024 exampleHabit 3 0 12 (midnight 19977 + 1800000))))
       \<noteq> nat (weekPosition 3 19977) + 1
   \<and> selectDate santiago2024
        (calendarData santiago2024 exampleHabit 3 0 12 (midnight 19977 + 1800000)) 11 6
       = ''2024-09-10''"
proof -
  have "getDateKey (midnight 19977 + 1800000) = ''2024-09-11''"
    by (simp add: getDateKey_def santiago_now dateKeyOfDay_def civil_defs padStart_def showInt_def
        showNat.simps digitChar_def)
  moreover have pos: "weekPosition 3 19977 = 0"
    by (simp add: weekPosition_def weekdayOf_def)
  moreover have "cd_startDate (calendarData santiago2024 exampleHabit 3 0 12 (midnight 19977 + 1800000))
       = midnight 19893 + 3600000"
    by (simp add: cd_startDate_calendarData santiago_start)
  moreover have "diffWeeks (midnight 19977 + 1800000) (midnight 19893 + 3600000) = 11"
    by (simp add: diffWeeks_def midnight_def MILLISECONDS_A_DAY_def MILLISECONDS_A_WEEK_def)
  moreover have "[0..<12] = [0, 1, 2, 3, 4, 5, 6, 7, 8, 9, 10, 11::nat]"
    by (simp add: upt_conv_Cons)
  then have "map length (cd_weeks (calendarData santiago2024 exampleHabit 3 0 12 (midnight 19977 + 1800000)))
       = [7, 7, 7, 7, 7, 7, 7, 7, 7, 7, 7, 7]"
    by (simp add: santiago_weeks weekSpan_length del: upt_Suc)
  moreover have "length (last (cd_weeks (calendarData santiago2024 exampleHabit 3 0 12 (midnight 19977 + 1800000)))) = 7"
    by (simp add: santiago_weeks weekSpan_length last_map)
  ultimately show ?thesis
    by (simp add: santiago_now santiago_startOf_week santiago_last_cell)
qed

subsection \<open>Month labels\<close>

lemma weekStart_Suc: "addDays zone 7 (weekStart zone sd i) = weekStart zone sd (i + 1)"
  by (simp add: weekStart_def)

lemma dayOf_weekStart:
  "staysInDay zone \<Longrightarrow> dayOf (weekStart zone sd i) = dayOf sd + 7 * int i"
proof (induction i)
  case 0
  then show ?case by (simp add: weekStart_def)
next
  case (Suc i)
  have "weekStart zone sd (Suc i) = addDays zone 7 (weekStart zone sd i)"
    by (simp add: weekStart_def)
  with Suc show ?case
    by (simp add: dayOf_addDays)
qed

lemma monthLabelsLoop_eq:
  "monthLabelsLoop zone n i (weekStart zone sd i) labels
   = labels @ labelsFrom zone sd (length labels) (filter (monthChanges zone sd) [i..<i + n])"
proof (induction n arbitrary: i labels)
  case 0
  then show ?case by simp
next
  case (Suc n)
  have upt: "[i..<i + Suc n] = i # [i + 1..<i + 1 + n]"
    by (simp add: upt_conv_Cons)
  show ?case
  proof (cases "monthChanges zone sd i")
    case True
    then have "monthLabelsLoop zone (Suc n) i (weekStart zone sd i) labels
        = monthLabelsLoop zone n (i + 1) (weekStart zone sd (i + 1))
            (labels @ [monthLabel zone sd i (length labels = 0)])"
      by (simp add: Let_def weekStart_Suc monthChanges_def monthLabel_def)
    also have "\<dots> = (labels @ [monthLabel zone sd i (length labels = 0)])
        @ labelsFrom zone sd (Suc (length labels)) (filter (monthChanges zone sd) [i + 1..<i + 1 + n])"
      using Suc.IH [of "i + 1" "labels @ [monthLabel zone sd i (length labels = 0)]"] by simp
    finally show ?thesis
      using True unfolding upt by simp
  next
    case False
    then have "monthLabelsLoop zone (Suc n) i (weekStart zone sd i) labels
        = monthLabelsLoop zone n (i + 1) (weekStart zone sd (i + 1)) labels"
      by (simp add: Let_def weekStart_Suc monthChanges_def)
    also have "\<dots> = labels @ labelsFrom zone sd (length labels)
        (filter (monthChanges zone sd) [i + 1..<i + 1 + n])"
      by (rule Suc.IH)
    finally show ?thesis
      using False unfolding upt by simp
  qed
qed

lemma MonthLabels_eq:
  "MonthLabels zone sd totalWeeks
   = labelsFrom zone sd 0 (filter (monthChanges zone sd) [0..<totalWeeks - 1])"
  using monthLabelsLoop_eq [of zone "totalWeeks - 1" 0 sd "[]"]
  by (simp add: MonthLabels_def weekStart_def)

lemma labelsFrom_enumerate:
  "labelsFrom zone sd c ks = map (\<lambda>(j, i). monthLabel zone sd i (j = 0)) (enumerate c ks)"
  by (induction ks arbitrary: c) simp_all

lemma labelsFrom_x: "map ml_x (labelsFrom zone sd c ks) = map (\<lambda>i. weekColumnOffset i + 1) ks"
  by (induction ks arbitrary: c) (simp_all add: monthLabel_def weekColumnOffset_def mult.commute)

lemma labelsFrom_key:
  "map ml_key (labelsFrom zone sd c ks) = map (\<lambda>i. monthOf (dayOf (weekStart zone sd i))) ks"
  by (induction ks arbitrary: c) (simp_all add: monthLabel_def)

lemma monthLabel_eq:
  "monthLabel zone sd i first
   = \<lparr> ml_x = weekColumnOffset i + 1, ml_y = HEADER_SIZE - 3,
       ml_key = monthOf (dayOf (weekStart zone sd i)),
       ml_text = monthsShort ! nat (monthOf (dayOf (weekStart zone sd i)))
                 @ (if first then '' '' @ formatYYYY (weekStart zone sd i) else []) \<rparr>"
  by (simp add: monthLabel_def weekColumnOffset_def mult.commute formatMMM_YYYY_def formatMMM_def)

text \<open>
  C2 (amended). The month labels are in one-to-one correspondence, in order, with the week
  indices \<open>i < totalWeeks - 1\<close> at which the starts of weeks \<open>i\<close> and \<open>i + 1\<close> fall
  in different months. The label for such an \<open>i\<close> sits at the column offset of week
  \<open>i\<close> plus 1, 3 above the grid, has the month of week \<open>i\<close>, the earlier of the two,
  as its key, and its text is the short name of that month, followed by the year of week
  \<open>i\<close> when the label is the first one. Where every reading stays in its day, the start of
  week \<open>i\<close> is \<open>7 * i\<close> days after the start date. For a window of 4 weeks whose only
  change of month is between weeks 1 and 2 there is exactly one label, at the column offset of
  week 1 plus 1, with the month and the year of week 1.
\<close>

theorem month_labels:
  "MonthLabels zone startDate totalWeeks
     = map (\<lambda>(j, i).
              \<lparr> ml_x = weekColumnOffset i + 1, ml_y = HEADER_SIZE - 3,
                ml_key = monthOf (dayOf (weekStart zone startDate i)),
                ml_text = monthsShort ! nat (monthOf (dayOf (weekStart zone startDate i)))
                          @ (if j = 0 then '' '' @ formatYYYY (weekStart zone startDate i) else []) \<rparr>)
           (enumerate 0 (filter (monthChanges zone startDate) [0..<totalWeeks - 1]))
   \<and> map ml_x (MonthLabels zone startDate totalWeeks)
     = map (\<lambda>i. weekColumnOffset i + 1) (filter (monthChanges zone startDate) [0..<totalWeeks - 1])
   \<and> map ml_key (MonthLabels zone startDate totalWeeks)
     = map (\<lambda>i. monthOf (dayOf (weekStart zone startDate i)))
         (filter (monthChanges zone startDate) [0..<totalWeeks - 1])
   \<and> (staysInDay zone \<longrightarrow> dayOf (weekStart zone startDate i) = dayOf startDate + 7 * int i)
   \<and> (\<not> monthChanges zone startDate 0 \<and> monthChanges zone startDate 1
        \<and> \<not> monthChanges zone startDate 2 \<longrightarrow>
        MonthLabels zone startDate 4
          = [\<lparr> ml_x = weekColumnOffset 1 + 1, ml_y = HEADER_SIZE - 3,
               ml_key = monthOf (dayOf (weekStart zone startDate 1)),
               ml_text = formatMMM_YYYY (weekStart zone startDate 1) \<rparr>])"
proof -
  have four: "MonthLabels zone startDate 4 = [monthLabel zone startDate 1 True]"
    if "\<not> monthChanges zone startDate 0" "monthChanges zone startDate 1"
      "\<not> monthChanges zone startDate 2"
  proof -
    have "[0..<4 - 1] = [0, 1, 2::nat]"
      by (simp add: upt_conv_Cons)
    with that show ?thesis
      by (simp add: MonthLabels_eq)
  qed
  have labels: "MonthLabels zone startDate totalWeeks
     = map (\<lambda>(j, i).
              \<lparr> ml_x = weekColumnOffset i + 1, ml_y = HEADER_SIZE - 3,
                ml_key = monthOf (dayOf (weekStart zone startDate i)),
                ml_text = monthsShort ! nat (monthOf (dayOf (weekStart zone startDate i)))
                          @ (if j = 0 then '' '' @ formatYYYY (weekStart zone startDate i) else []) \<rparr>)
           (enumerate 0 (filter (monthChanges zone startDate) [0..<totalWeeks - 1]))"
    by (simp add: MonthLabels_eq labelsFrom_enumerate monthLabel_eq)
  have x: "map ml_x (MonthLabels zone startDate totalWeeks)
     = map (\<lambda>i. weekColumnOffset i + 1) (filter (monthChanges zone startDate) [0..<totalWeeks - 1])"
    by (simp add: MonthLabels_eq labelsFrom_x)
  have key: "map ml_key (MonthLabels zone startDate totalWeeks)
     = map (\<lambda>i. monthOf (dayOf (weekStart zone startDate i)))
         (filter (monthChanges zone startDate) [0..<totalWeeks - 1])"
    by (simp add: MonthLabels_eq labelsFrom_key)
  have start: "staysInDay zone \<longrightarrow> dayOf (weekStart zone startDate i) = dayOf startDate + 7 * int i"
    by (simp add: dayOf_weekStart)
  have "\<not> monthChanges zone startDate 0 \<and> monthChanges zone startDate 1
        \<and> \<not> monthChanges zone startDate 2 \<longrightarrow>
        MonthLabels zone startDate 4
          = [\<lparr> ml_x = weekColumnOffset 1 + 1, ml_y = HEADER_SIZE - 3,
               ml_key = monthOf (dayOf (weekStart zone startDate 1)),
               ml_text = formatMMM_YYYY (weekStart zone startDate 1) \<rparr>]"
    using four by (simp add: monthLabel_def weekColumnOffset_def mult.commute)
  with labels x key start show ?thesis
    by (intro conjI)
qed

lemma addDays_noClockChange: "addDays noClockChange n (midnight d) = midnight (d + n)"
  by (simp add: addDays_def noClockChange_def midnight_def algebra_simps)

lemma weekStart_noClockChange:
  "weekStart noClockChange (midnight d) i = midnight (d + 7 * int i)"
proof (induction i)
  case 0
  then show ?case by (simp add: weekStart_def)
next
  case (Suc i)
  have "weekStart noClockChange (midnight d) (Suc i)
      = addDays noClockChange 7 (weekStart noClockChange (midnight d) i)"
    by (simp add: weekStart_def)
  with Suc show ?case
    by (simp add: addDays_noClockChange algebra_simps)
qed

lemma example_months:
  "\<not> monthChanges noClockChange (midnight 19743) 0 \<and> monthChanges noClockChange (midnight 19743) 1
   \<and> \<not> monthChanges noClockChange (midnight 19743) 2"
  by (simp add: monthChanges_def weekStart_noClockChange isSameMonth_def dayOf_midnight civil_defs)

theorem month_labels_witness:
  "staysInDay noClockChange
   \<and> dayOf (weekStart noClockChange (midnight 19743) 1) = 19750
   \<and> \<not> monthChanges noClockChange (midnight 19743) 0 \<and> monthChanges noClockChange (midnight 19743) 1
   \<and> \<not> monthChanges noClockChange (midnight 19743) 2
   \<and> MonthLabels noClockChange (midnight 19743) 4
       = [\<lparr> ml_x = 13, ml_y = 5, ml_key = 0, ml_text = ''Jan 2024'' \<rparr>]"
proof -
  have "formatMMM_YYYY (weekStart noClockChange (midnight 19743) 1) = ''Jan 2024''"
    by (simp add: weekStart_noClockChange formatMMM_YYYY_def formatMMM_def formatYYYY_def
        dayOf_midnight civil_defs monthsShort_def padStart_def showInt_def showNat.simps digitChar_def)
  moreover have "monthOf (dayOf (weekStart noClockChange (midnight 19743) 1)) = 0"
    by (simp add: weekStart_noClockChange dayOf_midnight civil_defs)
  moreover have "staysInDay noClockChange \<longrightarrow>
      dayOf (weekStart noClockChange (midnight 19743) 1) = dayOf (midnight 19743) + 7 * int 1"
    and "\<not> monthChanges noClockChange (midnight 19743) 0 \<and> monthChanges noClockChange (midnight 19743) 1
        \<and> \<not> monthChanges noClockChange (midnight 19743) 2 \<longrightarrow>
        MonthLabels noClockChange (midnight 19743) 4
          = [\<lparr> ml_x = weekColumnOffset 1 + 1, ml_y = HEADER_SIZE - 3,
               ml_key = monthOf (dayOf (weekStart noClockChange (midnight 19743) 1)),
               ml_text = formatMMM_YYYY (weekStart noClockChange (midnight 19743) 1) \<rparr>]"
    using month_labels [of noClockChange "midnight 19743" 4 1] by blast+
  ultimately show ?thesis
    using example_months staysInDay_noClockChange
    by (simp add: weekColumnOffset_def CELL_SIZE_def RECT_SIZE_def CELL_SPACING_def HEADER_SIZE_def
        dayOf_midnight)
qed

text \<open>
  The four weeks that start on 2024-01-21, 2024-01-28, 2024-02-04 and 2024-02-11: the month
  changes between weeks 1 and 2, and the one label is at 13, the offset of column 1 plus 1,
  not at the offset of column 2.
\<close>

theorem month_label_position_counterexample:
  "isSameMonth (addDays noClockChange 7 (midnight 19743)) (midnight 19743)
   \<and> \<not> isSameMonth (addDays noClockChange 14 (midnight 19743)) (addDays noClockChange 7 (midnight 19743))
   \<and> isSameMonth (addDays noClockChange 21 (midnight 19743)) (addDays noClockChange 14 (midnight 19743))
   \<and> map ml_x (MonthLabels noClockChange (midnight 19743) 4) = [13]
   \<and> weekColumnOffset 1 = 12
   \<and> weekColumnOffset 2 = 24
   \<and> map ml_x (MonthLabels noClockChange (midnight 19743) 4) \<noteq> [weekColumnOffset 2]
   \<and> map ml_x (MonthLabels noClockChange (midnight 19743) 4) \<noteq> [weekColumnOffset 2 + 1]"
proof -
  note add = addDays_noClockChange
  have months: "isSameMonth (addDays noClockChange 7 (midnight 19743)) (midnight 19743)"
    "\<not> isSameMonth (addDays noClockChange 14 (midnight 19743)) (addDays noClockChange 7 (midnight 19743))"
    "isSameMonth (addDays noClockChange 21 (midnight 19743)) (addDays noClockChange 14 (midnight 19743))"
    by (simp_all add: isSameMonth_def add dayOf_midnight civil_defs)
  have "[0..<4 - 1] = [0, 1, 2::nat]"
    by (simp add: upt_conv_Cons)
  with example_months have x: "map ml_x (MonthLabels noClockChange (midnight 19743) 4) = [13]"
    by (simp add: MonthLabels_eq monthLabel_def CELL_SIZE_def RECT_SIZE_def CELL_SPACING_def)
  show ?thesis
    using months x by (simp add: weekColumnOffset_def CELL_SIZE_def RECT_SIZE_def CELL_SPACING_def)
qed

section \<open>Properties of the settings store\<close>

lemmas lex_defs = lex_def lexChar_def startChar_def isSpace_def DQUOTE_def BACKSLASH_def
  isDigit_def isLetter_def isNumberChar_def afterToken_def numberToken_def wordToken_def digitsVal_def
  digitVal_def MAX_SAFE_def lexEnd_def unescape_def Let_def

lemmas parse_defs = JSON_parse_def parseStep_def readValue_def readKey_def pushValue_def
  closeObject_def closeArray_def isArrayIndex_def addMember_def

lemma stringify_weekday:
  assumes "0 \<le> n" "n \<le> 6"
  shows \<open>JSON_stringify (JObject [(''startOfWeek'', JNumber n)])
         = Inr (''{"startOfWeek":'' @ [digitChar (nat n)] @ ''}'')\<close>
proof -
  from assms have "nat n < 10"
    by simp
  then have "showNat (nat n) = [digitChar (nat n)]"
    by (subst showNat.simps) simp
  with assms have "showInt n = [digitChar (nat n)]"
    by (simp add: showInt_def)
  with assms show ?thesis
    by (simp add: JSON_stringify_def quote_def quoteChar_def DQUOTE_def BACKSLASH_def MAX_SAFE_def
        isArrayIndex_def isDigit_def)
qed

lemma weekday_cases:
  assumes "0 \<le> n" "n \<le> 6"
  obtains "n = 0" | "n = 1" | "n = 2" | "n = 3" | "n = 4" | "n = 5" | "n = (6::int)"
  using assms by atomize_elim presburger

lemma parse_weekday:
  assumes "0 \<le> n" "n \<le> 6"
  shows \<open>JSON_parse (''{"startOfWeek":'' @ [digitChar (nat n)] @ ''}'')
         = Inr (JObject [(''startOfWeek'', JNumber n)])\<close>
  using assms
  by (rule weekday_cases) (simp_all add: digitChar_def lex_defs parse_defs)


lemma autorun_persisted:
  assumes "autorun tab = Inr tab'"
  shows "persisted tab' \<and> settingsStore tab' = settingsStore tab"
  using assms
  by (auto simp: autorun_def saveSettings_def persisted_def split: sum.splits)

lemma afterAction_persisted:
  assumes before: "persisted t0"
    and same: "localStorage tab = localStorage t0"
    and store: "startOfWeek (settingsStore tab)
                = (case assigned of None \<Rightarrow> startOfWeek (settingsStore t0) | Some v \<Rightarrow> v)"
    and run: "afterAction (settingsStore t0) assigned tab = Inr tab'"
  shows "persisted tab' \<and> settingsStore tab' = settingsStore tab"
proof (cases "\<exists>v. assigned = Some v \<and> (v \<noteq> startOfWeek (settingsStore t0) \<or> \<not> isScalar v)")
  case True
  with run have "autorun tab = Inr tab'"
    by (auto simp: afterAction_def)
  then show ?thesis
    by (rule autorun_persisted)
next
  case False
  with run have "tab' = tab"
    by (auto simp: afterAction_def split: option.splits if_splits)
  moreover from False store have "startOfWeek (settingsStore tab) = startOfWeek (settingsStore t0)"
    by (cases assigned) auto
  with before same have "persisted tab"
    by (auto simp: persisted_def split: sum.splits)
  ultimately show ?thesis
    by simp
qed

lemma updateSettings_store:
  assumes "updateSettings settings store = Inr this"
  shows "startOfWeek this
         = (case propStartOfWeek settings of None \<Rightarrow> startOfWeek store | Some v \<Rightarrow> v)"
  using assms by (auto simp: updateSettings_def split: if_splits option.splits)

lemma perform_persisted:
  assumes "persisted tab" and "perform a tab = Inr tab'"
  shows "persisted tab'"
proof (cases a)
  case (SetStartOfWeek v)
  with assms(2) have "afterAction (settingsStore tab) (Some v)
      (tab\<lparr> settingsStore := setStartOfWeek v (settingsStore tab) \<rparr>) = Inr tab'"
    by (simp add: perform_def)
  with assms(1) show ?thesis
    using afterAction_persisted [of tab "tab\<lparr> settingsStore := setStartOfWeek v (settingsStore tab) \<rparr>"
        "Some v" tab']
    by (simp add: setStartOfWeek_def)
next
  case (UpdateSettings settings)
  with assms(2) obtain this where upd: "updateSettings settings (settingsStore tab) = Inr this"
    "afterAction (settingsStore tab) (propStartOfWeek settings) (tab\<lparr> settingsStore := this \<rparr>) = Inr tab'"
    by (auto simp: perform_def split: sum.splits)
  with assms(1) show ?thesis
    using afterAction_persisted [of tab "tab\<lparr> settingsStore := this \<rparr>" "propStartOfWeek settings" tab']
      updateSettings_store [OF upd(1)]
    by simp
next
  case (Storage event)
  show ?thesis
  proof (cases "onStorage event tab = Inr tab")
    case True
    with assms Storage show ?thesis
      by (simp add: perform_def)
  next
    case False
    with assms(2) Storage obtain this settings
      where upd: "updateSettings settings (settingsStore tab) = Inr this"
        "afterAction (settingsStore tab) (propStartOfWeek settings) (tab\<lparr> settingsStore := this \<rparr>) = Inr tab'"
      by (auto simp: perform_def onStorage_def split: sum.splits option.splits if_splits)
    with assms(1) show ?thesis
      using afterAction_persisted [of tab "tab\<lparr> settingsStore := this \<rparr>" "propStartOfWeek settings" tab']
        updateSettings_store [OF upd(1)]
      by simp
  qed
qed

lemma performAll_persisted:
  assumes "persisted tab" and "performAll acts tab = Inr tab'"
  shows "persisted tab'"
  using assms
proof (induction acts arbitrary: tab)
  case Nil
  then show ?case by simp
next
  case (Cons a acts)
  from Cons.prems(2) obtain t where t: "perform a tab = Inr t" "performAll acts t = Inr tab'"
    by (auto split: sum.splits)
  from Cons.prems(1) t(1) have "persisted t"
    by (rule perform_persisted)
  from this t(2) show ?case
    by (rule Cons.IH)
qed

lemma initModule_persisted:
  assumes "initModule ls = Inr tab"
  shows "persisted tab"
  using assms autorun_persisted
  by (auto simp: initModule_def split: sum.splits)

lemma setStartOfWeek_persisted:
  assumes "persisted tab" and "0 \<le> n" and "n \<le> 6"
  shows "\<exists>tab'. perform (SetStartOfWeek (JNumber n)) tab = Inr tab'
           \<and> persisted tab' \<and> startOfWeek (settingsStore tab') = JNumber n"
proof (cases "startOfWeek (settingsStore tab) = JNumber n")
  case True
  then have "perform (SetStartOfWeek (JNumber n)) tab = Inr tab"
    by (simp add: perform_def afterAction_def setStartOfWeek_def isScalar_def)
  with True assms(1) show ?thesis
    by simp
next
  case False
  define t where "t = tab\<lparr> settingsStore := setStartOfWeek (JNumber n) (settingsStore tab) \<rparr>"
  from assms(2,3) have \<open>autorun t
      = Inr (t\<lparr> localStorage := (localStorage t)(SETTINGS_KEY \<mapsto> ''{"startOfWeek":'' @ [digitChar (nat n)] @ ''}'') \<rparr>)\<close>
    by (simp add: autorun_def saveSettings_def t_def setStartOfWeek_def stringify_weekday)
  moreover from False have "perform (SetStartOfWeek (JNumber n)) tab = autorun t"
    by (auto simp: perform_def afterAction_def t_def setStartOfWeek_def)
  ultimately obtain tab' where tab': "perform (SetStartOfWeek (JNumber n)) tab = Inr tab'"
    "autorun t = Inr tab'"
    by simp
  from tab'(2) have "persisted tab' \<and> settingsStore tab' = settingsStore t"
    by (rule autorun_persisted)
  with tab'(1) show ?thesis
    by (simp add: t_def setStartOfWeek_def)
qed

lemma reload_weekday:
  assumes "persisted tab" and "startOfWeek (settingsStore tab) = JNumber n" and "0 \<le> n" and "n \<le> 6"
  shows \<open>localStorage tab SETTINGS_KEY = Some (''{"startOfWeek":'' @ [digitChar (nat n)] @ ''}'')
         \<and> (\<exists>tab''. initModule (localStorage tab) = Inr tab''
                \<and> startOfWeek (settingsStore tab'') = JNumber n)\<close>
proof -
  from assms have stored:
    \<open>localStorage tab SETTINGS_KEY = Some (''{"startOfWeek":'' @ [digitChar (nat n)] @ ''}'')\<close>
    by (simp add: persisted_def stringify_weekday)
  then have "loadSettings (localStorage tab) = Inr (JObject [(''startOfWeek'', JNumber n)])"
    using parse_weekday [OF assms(3,4)] by (simp add: loadSettings_def)
  then have "initModule (localStorage tab)
      = autorun \<lparr> settingsStore = \<lparr> startOfWeek = JNumber n \<rparr>, localStorage = localStorage tab \<rparr>"
    by (simp add: initModule_def newSettingsStore_def propStartOfWeek_def)
  moreover from assms(3,4) have "\<exists>t. autorun \<lparr> settingsStore = \<lparr> startOfWeek = JNumber n \<rparr>,
      localStorage = localStorage tab \<rparr> = Inr t \<and> startOfWeek (settingsStore t) = JNumber n"
    by (simp add: autorun_def saveSettings_def stringify_weekday)
  ultimately show ?thesis
    using stored by simp
qed

lemma parse_5: \<open>JSON_parse ''{"startOfWeek":5}'' = Inr (JObject [(''startOfWeek'', JNumber 5)])\<close>
  using parse_weekday [of 5] by (simp add: digitChar_def)

lemma initModule_default:
  assumes "loadSettings ls = Inr p"
    and "p = JNull \<or> propStartOfWeek p = None \<or> propStartOfWeek p = Some JNull"
  shows \<open>\<exists>tab. initModule ls = Inr tab \<and> startOfWeek (settingsStore tab) = JNumber 0
           \<and> localStorage tab SETTINGS_KEY = Some ''{"startOfWeek":0}''\<close>
proof -
  from assms(2) have "newSettingsStore p = \<lparr> startOfWeek = JNumber 0 \<rparr>"
    by (auto simp: newSettingsStore_def)
  with assms(1) show ?thesis
    using stringify_weekday [of 0]
    by (simp add: initModule_def autorun_def saveSettings_def digitChar_def)
qed

text \<open>
  C3. Round-trip persistence: in a tab whose module has been loaded and has performed any
  actions, \<^verbatim>\<open>setStartOfWeek(3)\<close> succeeds and leaves \<^verbatim>\<open>{"startOfWeek":3}\<close> under the
  key \<^verbatim>\<open>habits.settings\<close>; loading the module afresh from that storage succeeds and gives
  a store whose \<^verbatim>\<open>startOfWeek\<close> is 3.
\<close>

theorem persistence_round_trip:
  assumes "initModule ls0 = Inr tab0" and "performAll acts tab0 = Inr tab"
  shows \<open>\<exists>tab' tab''.
           perform (SetStartOfWeek (JNumber 3)) tab = Inr tab'
           \<and> startOfWeek (settingsStore tab') = JNumber 3
           \<and> localStorage tab' SETTINGS_KEY = Some ''{"startOfWeek":3}''
           \<and> initModule (localStorage tab') = Inr tab''
           \<and> startOfWeek (settingsStore tab'') = JNumber 3\<close>
proof -
  from assms(1) have "persisted tab0"
    by (rule initModule_persisted)
  from this assms(2) have "persisted tab"
    by (rule performAll_persisted)
  then obtain tab' where tab': "perform (SetStartOfWeek (JNumber 3)) tab = Inr tab'"
    "persisted tab'" "startOfWeek (settingsStore tab') = JNumber 3"
    using setStartOfWeek_persisted [of tab 3] by auto
  from reload_weekday [OF tab'(2,3)] obtain tab''
    where \<open>localStorage tab' SETTINGS_KEY = Some ''{"startOfWeek":3}''\<close>
      and "initModule (localStorage tab') = Inr tab''"
      and "startOfWeek (settingsStore tab'') = JNumber 3"
    by (auto simp: digitChar_def)
  with tab' show ?thesis
    by blast
qed

lemma example_init:
  \<open>initModule Map.empty
     = Inr \<lparr> settingsStore = \<lparr> startOfWeek = JNumber 0 \<rparr>,
             localStorage = [SETTINGS_KEY \<mapsto> ''{"startOfWeek":0}''] \<rparr>\<close>
  using stringify_weekday [of 0]
  by (simp add: initModule_def loadSettings_def newSettingsStore_def autorun_def saveSettings_def
      digitChar_def)

lemma example_storage_event:
  \<open>onStorage \<lparr> ev_key = Some SETTINGS_KEY, ev_newValue = Some ''{"startOfWeek":5}'' \<rparr>
       \<lparr> settingsStore = \<lparr> startOfWeek = JNumber 0 \<rparr>,
         localStorage = [SETTINGS_KEY \<mapsto> ''{"startOfWeek":0}''] \<rparr>
     = Inr \<lparr> settingsStore = \<lparr> startOfWeek = JNumber 5 \<rparr>,
             localStorage = [SETTINGS_KEY \<mapsto> ''{"startOfWeek":5}''] \<rparr>\<close>
  using stringify_weekday [of 5]
  by (simp add: onStorage_def parse_5 updateSettings_def propStartOfWeek_def afterAction_def
      autorun_def saveSettings_def digitChar_def)

theorem persistence_round_trip_witness:
  \<open>\<exists>tab' tab''.
      perform (SetStartOfWeek (JNumber 3))
        \<lparr> settingsStore = \<lparr> startOfWeek = JNumber 5 \<rparr>,
          localStorage = [SETTINGS_KEY \<mapsto> ''{"startOfWeek":5}''] \<rparr> = Inr tab'
      \<and> startOfWeek (settingsStore tab') = JNumber 3
      \<and> localStorage tab' SETTINGS_KEY = Some ''{"startOfWeek":3}''
      \<and> initModule (localStorage tab') = Inr tab''
      \<and> startOfWeek (settingsStore tab'') = JNumber 3\<close>
proof -
  have \<open>performAll [Storage \<lparr> ev_key = Some SETTINGS_KEY, ev_newValue = Some ''{"startOfWeek":5}'' \<rparr>]
          \<lparr> settingsStore = \<lparr> startOfWeek = JNumber 0 \<rparr>,
            localStorage = [SETTINGS_KEY \<mapsto> ''{"startOfWeek":0}''] \<rparr>
        = Inr \<lparr> settingsStore = \<lparr> startOfWeek = JNumber 5 \<rparr>,
                localStorage = [SETTINGS_KEY \<mapsto> ''{"startOfWeek":5}''] \<rparr>\<close>
    by (simp add: perform_def example_storage_event)
  with example_init show ?thesis
    by (rule persistence_round_trip)
qed

text \<open>
  C5. When nothing is persisted under \<^verbatim>\<open>habits.settings\<close>, the module loads and the
  store's \<^verbatim>\<open>startOfWeek\<close> is 0 (which the first run of \<^verbatim>\<open>autorun\<close> then persists).
\<close>

theorem default_settings:
  assumes "ls SETTINGS_KEY = None"
  shows \<open>\<exists>tab. initModule ls = Inr tab \<and> startOfWeek (settingsStore tab) = JNumber 0
           \<and> localStorage tab SETTINGS_KEY = Some ''{"startOfWeek":0}''\<close>
proof -
  from assms have "loadSettings ls = Inr JNull"
    by (simp add: loadSettings_def)
  then show ?thesis
    by (rule initModule_default) simp
qed

theorem default_settings_witness:
  "\<exists>tab. initModule Map.empty = Inr tab \<and> startOfWeek (settingsStore tab) = JNumber 0"
  using default_settings [of Map.empty] by auto

text \<open>
  C4 (amended). When the value persisted under \<^verbatim>\<open>habits.settings\<close> is present, not empty
  and not valid JSON, \<^verbatim>\<open>loadSettings\<close> raises a \<^verbatim>\<open>SyntaxError\<close> and loading the module
  fails with it: no store is constructed. The store's \<^verbatim>\<open>startOfWeek\<close> is 0 when the value
  is the empty string, or is valid JSON that is \<^verbatim>\<open>null\<close> or has no \<^verbatim>\<open>startOfWeek\<close>
  other than \<^verbatim>\<open>null\<close>.
\<close>

theorem load_malformed:
  assumes "ls SETTINGS_KEY = Some v"
  shows "(v \<noteq> [] \<and> JSON_parse v = Inl SyntaxError \<longrightarrow> initModule ls = Inl SyntaxError)
    \<and> (v = []
         \<or> (\<exists>p. JSON_parse v = Inr p
               \<and> (p = JNull \<or> propStartOfWeek p = None \<or> propStartOfWeek p = Some JNull))
       \<longrightarrow> (\<exists>tab. initModule ls = Inr tab \<and> startOfWeek (settingsStore tab) = JNumber 0))"
proof (intro conjI impI)
  assume "v \<noteq> [] \<and> JSON_parse v = Inl SyntaxError"
  with assms show "initModule ls = Inl SyntaxError"
    by (simp add: initModule_def loadSettings_def)
next
  assume "v = [] \<or> (\<exists>p. JSON_parse v = Inr p
      \<and> (p = JNull \<or> propStartOfWeek p = None \<or> propStartOfWeek p = Some JNull))"
  then have "\<exists>p. loadSettings ls = Inr p
      \<and> (p = JNull \<or> propStartOfWeek p = None \<or> propStartOfWeek p = Some JNull)"
    using assms by (cases "v = []") (auto simp: loadSettings_def)
  then obtain p where "loadSettings ls = Inr p"
    "p = JNull \<or> propStartOfWeek p = None \<or> propStartOfWeek p = Some JNull"
    by blast
  then show "\<exists>tab. initModule ls = Inr tab \<and> startOfWeek (settingsStore tab) = JNumber 0"
    using initModule_default by blast
qed

lemma parse_not_json: "JSON_parse ''not json'' = Inl SyntaxError"
  by (simp add: lex_defs parse_defs)

theorem load_malformed_witness:
  "initModule [SETTINGS_KEY \<mapsto> ''not json''] = Inl SyntaxError"
  using load_malformed [of "[SETTINGS_KEY \<mapsto> ''not json'']" "''not json''"] parse_not_json
  by simp

text \<open>
  With \<^verbatim>\<open>{startOfWeek:3}\<close> under the key (the key of the member is not quoted, so the
  text is not JSON), loading the module raises a \<^verbatim>\<open>SyntaxError\<close>; no store with
  \<^verbatim>\<open>startOfWeek\<close> 0 results.
\<close>

theorem load_malformed_counterexample:
  "[SETTINGS_KEY \<mapsto> ''{startOfWeek:3}''] SETTINGS_KEY = Some ''{startOfWeek:3}''
   \<and> JSON_parse ''{startOfWeek:3}'' = Inl SyntaxError
   \<and> initModule [SETTINGS_KEY \<mapsto> ''{startOfWeek:3}''] = Inl SyntaxError"
  by (simp add: initModule_def loadSettings_def lex_defs parse_defs)

text \<open>
  C6. Cross-tab reconciliation: a storage event for the key \<^verbatim>\<open>habits.settings\<close> with the
  new value \<^verbatim>\<open>{"startOfWeek":5}\<close> sets the store's \<^verbatim>\<open>startOfWeek\<close> to 5 in the live tab;
  an event for another key, or with no new value or an empty one, leaves the tab as it is;
  and an event for the key whose new value parses to an object is applied as a partial
  update: the member \<^verbatim>\<open>startOfWeek\<close> replaces the store's value when the object has it, and
  the store keeps its value, and the tab is as it was, otherwise.
\<close>

theorem cross_tab_reconciliation:
  \<open>(\<exists>tab'. onStorage \<lparr> ev_key = Some SETTINGS_KEY, ev_newValue = Some ''{"startOfWeek":5}'' \<rparr> tab
              = Inr tab'
            \<and> startOfWeek (settingsStore tab') = JNumber 5)
   \<and> (ev_key event \<noteq> Some SETTINGS_KEY \<or> ev_newValue event = None \<or> ev_newValue event = Some []
        \<longrightarrow> onStorage event tab = Inr tab)
   \<and> (\<forall>v ms. ev_key event = Some SETTINGS_KEY \<and> ev_newValue event = Some v \<and> v \<noteq> []
          \<and> JSON_parse v = Inr (JObject ms) \<longrightarrow>
          (\<exists>this. updateSettings (JObject ms) (settingsStore tab) = Inr this
             \<and> startOfWeek this
                 = (case map_of ms ''startOfWeek'' of
                      None \<Rightarrow> startOfWeek (settingsStore tab)
                    | Some x \<Rightarrow> x)
             \<and> onStorage event tab
                 = afterAction (settingsStore tab) (map_of ms ''startOfWeek'')
                     (tab\<lparr> settingsStore := this \<rparr>)
             \<and> (map_of ms ''startOfWeek'' = None \<longrightarrow> onStorage event tab = Inr tab)))\<close>
proof (intro conjI allI impI)
  define t where "t = tab\<lparr> settingsStore := (settingsStore tab)\<lparr> startOfWeek := JNumber 5 \<rparr> \<rparr>"
  have run: \<open>onStorage \<lparr> ev_key = Some SETTINGS_KEY, ev_newValue = Some ''{"startOfWeek":5}'' \<rparr> tab
      = afterAction (settingsStore tab) (Some (JNumber 5)) t\<close>
    by (simp add: onStorage_def parse_5 updateSettings_def propStartOfWeek_def t_def)
  have "\<exists>tab'. afterAction (settingsStore tab) (Some (JNumber 5)) t = Inr tab'
      \<and> startOfWeek (settingsStore tab') = JNumber 5"
    using stringify_weekday [of 5]
    by (simp add: afterAction_def autorun_def saveSettings_def t_def)
  with run show \<open>\<exists>tab'. onStorage \<lparr> ev_key = Some SETTINGS_KEY, ev_newValue = Some ''{"startOfWeek":5}'' \<rparr> tab
              = Inr tab'
            \<and> startOfWeek (settingsStore tab') = JNumber 5\<close>
    by simp
next
  assume "ev_key event \<noteq> Some SETTINGS_KEY \<or> ev_newValue event = None \<or> ev_newValue event = Some []"
  then show "onStorage event tab = Inr tab"
    by (auto simp: onStorage_def split: option.splits)
next
  fix v ms
  assume "ev_key event = Some SETTINGS_KEY \<and> ev_newValue event = Some v \<and> v \<noteq> []
          \<and> JSON_parse v = Inr (JObject ms)"
  then show "\<exists>this. updateSettings (JObject ms) (settingsStore tab) = Inr this
             \<and> startOfWeek this
                 = (case map_of ms ''startOfWeek'' of
                      None \<Rightarrow> startOfWeek (settingsStore tab)
                    | Some x \<Rightarrow> x)
             \<and> onStorage event tab
                 = afterAction (settingsStore tab) (map_of ms ''startOfWeek'')
                     (tab\<lparr> settingsStore := this \<rparr>)
             \<and> (map_of ms ''startOfWeek'' = None \<longrightarrow> onStorage event tab = Inr tab)"
    by (auto simp: onStorage_def updateSettings_def propStartOfWeek_def afterAction_def
        split: option.splits)
qed

theorem cross_tab_reconciliation_witness:
  \<open>(\<exists>tab'. onStorage \<lparr> ev_key = Some SETTINGS_KEY, ev_newValue = Some ''{"startOfWeek":5}'' \<rparr>
               \<lparr> settingsStore = \<lparr> startOfWeek = JNumber 0 \<rparr>,
                 localStorage = [SETTINGS_KEY \<mapsto> ''{"startOfWeek":0}''] \<rparr> = Inr tab'
            \<and> startOfWeek (settingsStore tab') = JNumber 5)
   \<and> onStorage \<lparr> ev_key = Some ''habits.theme'', ev_newValue = Some ''dark'' \<rparr>
        \<lparr> settingsStore = \<lparr> startOfWeek = JNumber 0 \<rparr>,
          localStorage = [SETTINGS_KEY \<mapsto> ''{"startOfWeek":0}''] \<rparr>
      = Inr \<lparr> settingsStore = \<lparr> startOfWeek = JNumber 0 \<rparr>,
              localStorage = [SETTINGS_KEY \<mapsto> ''{"startOfWeek":0}''] \<rparr>\<close>
  using cross_tab_reconciliation
    [of "\<lparr> settingsStore = \<lparr> startOfWeek = JNumber 0 \<rparr>,
          localStorage = [SETTINGS_KEY \<mapsto> ''{\"startOfWeek\":0}''] \<rparr>"
        "\<lparr> ev_key = Some ''habits.theme'', ev_newValue = Some ''dark'' \<rparr>"]
  by (simp add: SETTINGS_KEY_def)

end
